theory Spec2Isabelle
  imports Complex_Main
begin

section \<open>Labelled arrays\<close>

text \<open>
  The program (\<^verbatim>\<open>torchhydro/datasets/data_sets.py\<close>) works on xarray \<^verbatim>\<open>DataArray\<close>s:
  n-dimensional arrays of floats whose axes are named. The three axis names the program
  uses are \<^verbatim>\<open>basin\<close>, \<^verbatim>\<open>time\<close> and \<^verbatim>\<open>variable\<close>. An array is modelled by the order
  of its axes (\<open>dims\<close>), the coordinate labels of each axis, and its cells as a function
  of the position along every named axis. A cell is \<open>None\<close> where the array holds NaN;
  numbers are real numbers. Time stamps are integers: the count of ticks of the array's
  time unit (nanoseconds for the \<^verbatim>\<open>datetime64[ns]\<close> that xarray stores).
\<close>

datatype dim = Basin | Time | Variable

datatype error =
    ValueError | NotImplementedError | KeyError | IndexError | TypeError
  | AttributeError | ZeroDivisionError | AssertionError | OverflowError

type_synonym index = "dim \<Rightarrow> nat"

record data_array =
  dims :: "dim list"
  basin_coord :: "string list"
  time_coord :: "int list"
  variable_coord :: "string list"
  vals :: "index \<Rightarrow> real option"
  attrs_units :: "string \<rightharpoonup> string"

definition size_of :: "data_array \<Rightarrow> dim \<Rightarrow> nat" where
  "size_of da d =
     (case d of Basin \<Rightarrow> length (basin_coord da)
      | Time \<Rightarrow> length (time_coord da)
      | Variable \<Rightarrow> length (variable_coord da))"

definition shape :: "data_array \<Rightarrow> nat list" where
  "shape da = map (size_of da) (dims da)"

text \<open>All positions of an array over the axes \<open>ds\<close>, in row-major order (the first axis
  of \<open>ds\<close> varies slowest), as numpy enumerates them.\<close>

fun positions :: "data_array \<Rightarrow> dim list \<Rightarrow> index list" where
  "positions da [] = [\<lambda>_. 0]"
| "positions da (d # ds) =
     concat (map (\<lambda>j. map (\<lambda>ix. ix(d := j)) (positions da ds)) [0..<size_of da d])"

text \<open>\<^verbatim>\<open>da[i]\<close>: the sub-array at position \<open>i\<close> of the first axis \<open>d0\<close>.\<close>

definition isel_first :: "data_array \<Rightarrow> dim \<Rightarrow> nat \<Rightarrow> data_array" where
  "isel_first da d0 i = da\<lparr>dims := tl (dims da), vals := (\<lambda>ix. vals da (ix(d0 := i)))\<rparr>"

definition take_coord :: "data_array \<Rightarrow> dim \<Rightarrow> nat list \<Rightarrow> data_array" where
  "take_coord da d idx =
     (case d of
        Basin \<Rightarrow> da\<lparr>basin_coord := map (\<lambda>k. basin_coord da ! k) idx\<rparr>
      | Time \<Rightarrow> da\<lparr>time_coord := map (\<lambda>k. time_coord da ! k) idx\<rparr>
      | Variable \<Rightarrow> da\<lparr>variable_coord := map (\<lambda>k. variable_coord da ! k) idx\<rparr>)"

text \<open>\<^verbatim>\<open>sub[idx]\<close> for a list of positions \<open>idx\<close> along the first axis \<open>d1\<close> of \<open>sub\<close>.\<close>

definition isel_list :: "data_array \<Rightarrow> dim \<Rightarrow> nat list \<Rightarrow> data_array" where
  "isel_list sub d1 idx =
     (take_coord sub d1 idx)
       \<lparr>vals := (\<lambda>ix. if ix d1 < length idx then vals sub (ix(d1 := idx ! ix d1)) else None)\<rparr>"

definition index_of :: "nat list \<Rightarrow> nat \<Rightarrow> nat" where
  "index_of idx j = length (takeWhile (\<lambda>k. k \<noteq> j) idx)"

section \<open>Gap filling: \<^verbatim>\<open>_fill_gaps_da\<close>\<close>

text \<open>
  xarray's \<^verbatim>\<open>interpolate_na(dim="time", fill_value="extrapolate")\<close> is library code outside
  the repository. Where it raises is part of the model: KeyError on an array without a
  time axis, ValueError on a time coordinate that is not strictly increasing, IndexError
  on an array whose time axis is empty. The numbers it computes otherwise are a parameter
  \<open>interp\<close> of the model: any function from arrays to arrays.
\<close>

definition interpolate_na_time ::
  "(data_array \<Rightarrow> data_array) \<Rightarrow> data_array \<Rightarrow> error + data_array" where
  "interpolate_na_time interp da =
     (if Time \<notin> set (dims da) then Inl KeyError
      else if \<not> sorted_wrt (<) (time_coord da) then Inl ValueError
      else if time_coord da = [] then Inl IndexError
      else Inr (interp da))"

text \<open>The policies change the array in place, one position of the first axis after the
  other. A loop that raises leaves the array as the rounds before have made it: the
  result of a loop is what was raised, if anything, and the array after it.\<close>

fun run_loop ::
  "(nat \<Rightarrow> data_array \<Rightarrow> error + data_array) \<Rightarrow> nat list \<Rightarrow> data_array
    \<Rightarrow> error option \<times> data_array" where
  "run_loop step [] da = (None, da)"
| "run_loop step (i # rest) da =
     (case step i da of
        Inl e \<Rightarrow> (Some e, da)
      | Inr da' \<Rightarrow> run_loop step rest da')"

subsection \<open>Policy \<^verbatim>\<open>et_ssm_ignore\<close>\<close>

text \<open>\<^verbatim>\<open>np.where(~np.isnan(da[i].values))[0].tolist()\<close>: for every non-NaN cell of
  \<^verbatim>\<open>da[i]\<close>, in row-major order, its position along the first axis \<open>d1\<close> of \<^verbatim>\<open>da[i]\<close>.\<close>

definition non_nan_idx_tmp :: "data_array \<Rightarrow> dim \<Rightarrow> dim \<Rightarrow> dim list \<Rightarrow> nat \<Rightarrow> nat list" where
  "non_nan_idx_tmp da d0 d1 rest i =
     map (\<lambda>ix. ix d1) (filter (\<lambda>ix. vals da (ix(d0 := i)) \<noteq> None) (positions da (d1 # rest)))"

text \<open>The first loop: \<^verbatim>\<open>all_non_nan_idx = all_non_nan_idx + non_nan_idx_tmp[0].tolist()\<close>.\<close>

definition all_non_nan_idx :: "data_array \<Rightarrow> dim \<Rightarrow> dim \<Rightarrow> dim list \<Rightarrow> nat list" where
  "all_non_nan_idx da d0 d1 rest =
     fold (\<lambda>i acc. acc @ non_nan_idx_tmp da d0 d1 rest i) [0..<size_of da d0] []"

text \<open>\<^verbatim>\<open>np.unique(all_non_nan_idx).tolist()\<close>: sorted, without repetition.\<close>

definition non_nan_idx :: "data_array \<Rightarrow> dim \<Rightarrow> dim \<Rightarrow> dim list \<Rightarrow> nat list" where
  "non_nan_idx da d0 d1 rest = sorted_list_of_set (set (all_non_nan_idx da d0 d1 rest))"

text \<open>One round of the second loop:
  \<^verbatim>\<open>targ_i = da[i][non_nan_idx]; da[i][non_nan_idx] = targ_i.interpolate_na(...)\<close>.
  The right-hand side is computed first; the assignment then writes through to \<open>da\<close>, at
  the positions of \<open>idx\<close> only.\<close>

definition assign_interp ::
  "(data_array \<Rightarrow> data_array) \<Rightarrow> dim \<Rightarrow> dim \<Rightarrow> nat list \<Rightarrow> nat \<Rightarrow> data_array
    \<Rightarrow> error + data_array" where
  "assign_interp interp d0 d1 idx i da =
     (let targ_i = isel_list (isel_first da d0 i) d1 idx
      in case interpolate_na_time interp targ_i of
           Inl e \<Rightarrow> Inl e
         | Inr filled \<Rightarrow>
             Inr (da\<lparr>vals := (\<lambda>ix. if ix d0 = i \<and> ix d1 \<in> set idx
                                    then vals filled (ix(d1 := index_of idx (ix d1)))
                                    else vals da ix)\<rparr>))"

text \<open>\<^verbatim>\<open>da.shape[0]\<close> raises IndexError on an array without axes. On an array with one
  axis \<^verbatim>\<open>da[i].values\<close> has no axis, where \<^verbatim>\<open>np.where\<close> raises. The result is what was
  raised, if anything, and the array after the call.\<close>

definition fill_et_ssm_ignore ::
  "(data_array \<Rightarrow> data_array) \<Rightarrow> data_array \<Rightarrow> error option \<times> data_array" where
  "fill_et_ssm_ignore interp da =
     (case dims da of
        [] \<Rightarrow> (Some IndexError, da)
      | [d0] \<Rightarrow> if size_of da d0 = 0 then (None, da) else (Some ValueError, da)
      | d0 # d1 # rest \<Rightarrow>
          run_loop (assign_interp interp d0 d1 (non_nan_idx da d0 d1 rest))
            [0..<size_of da d0] da)"

subsection \<open>Policy \<^verbatim>\<open>mean\<close>\<close>

text \<open>\<^verbatim>\<open>var_data.mean(dim="basin")\<close> skips NaN and is NaN where every basin is NaN.\<close>

definition nanmean :: "real option list \<Rightarrow> real option" where
  "nanmean xs =
     (let ys = concat (map (\<lambda>x. case x of None \<Rightarrow> [] | Some y \<Rightarrow> [y]) xs)
      in if ys = [] then None else Some (sum_list ys / real (length ys)))"

definition mean_val :: "data_array \<Rightarrow> index \<Rightarrow> real option" where
  "mean_val da ix = nanmean (map (\<lambda>b. vals da (ix(Basin := b))) [0..<size_of da Basin])"

text \<open>One round of the loop over the variables: the slice of variable \<open>v\<close> is replaced by
  \<^verbatim>\<open>var_data.fillna(mean_val)\<close>.\<close>

definition fill_mean_var :: "nat \<Rightarrow> data_array \<Rightarrow> data_array" where
  "fill_mean_var v da =
     da\<lparr>vals := (\<lambda>ix. if ix Variable = v
                       then (case vals da ix of None \<Rightarrow> mean_val da ix | Some x \<Rightarrow> Some x)
                       else vals da ix)\<rparr>"

text \<open>\<^verbatim>\<open>da["variable"]\<close> raises KeyError without that axis; \<^verbatim>\<open>mean(dim="basin")\<close> raises
  ValueError without a basin axis, once the loop runs.\<close>

definition fill_mean :: "data_array \<Rightarrow> error + data_array" where
  "fill_mean da =
     (if Variable \<notin> set (dims da) then Inl KeyError
      else if size_of da Variable = 0 then Inr da
      else if Basin \<notin> set (dims da) then Inl ValueError
      else Inr (fold fill_mean_var [0..<size_of da Variable] da))"

subsection \<open>Policy \<^verbatim>\<open>interpolate\<close>\<close>

text \<open>\<^verbatim>\<open>da[i] = da[i].interpolate_na(dim="time", fill_value="extrapolate")\<close>.\<close>

definition interpolate_step ::
  "(data_array \<Rightarrow> data_array) \<Rightarrow> dim \<Rightarrow> nat \<Rightarrow> data_array \<Rightarrow> error + data_array" where
  "interpolate_step interp d0 i da =
     (case interpolate_na_time interp (isel_first da d0 i) of
        Inl e \<Rightarrow> Inl e
      | Inr filled \<Rightarrow>
          Inr (da\<lparr>vals := (\<lambda>ix. if ix d0 = i then vals filled ix else vals da ix)\<rparr>))"

definition fill_interpolate ::
  "(data_array \<Rightarrow> data_array) \<Rightarrow> data_array \<Rightarrow> error option \<times> data_array" where
  "fill_interpolate interp da =
     (case dims da of
        [] \<Rightarrow> (Some IndexError, da)
      | d0 # _ \<Rightarrow> run_loop (interpolate_step interp d0) [0..<size_of da d0] da)"

subsection \<open>The dispatcher\<close>

text \<open>\<^verbatim>\<open>_fill_gaps_da(da, fill_nan)\<close>. Both arguments may be \<^verbatim>\<open>None\<close>. The assertion that
  \<open>da\<close> is a \<^verbatim>\<open>DataArray\<close> holds by the type of \<open>da\<close>. The array is changed in place and
  returned. \<open>fill_gaps_da_run\<close> gives what was raised, if anything, and the array after the
  call; \<open>fill_gaps_da\<close> gives what the call returns or raises.\<close>

definition fill_gaps_da_run ::
  "(data_array \<Rightarrow> data_array) \<Rightarrow> data_array option \<Rightarrow> string option
    \<Rightarrow> error option \<times> data_array option" where
  "fill_gaps_da_run interp da fill_nan =
     (case fill_nan of
        None \<Rightarrow> (None, da)
      | Some p \<Rightarrow>
          (case da of
             None \<Rightarrow> (None, da)
           | Some d \<Rightarrow>
               if p = ''et_ssm_ignore'' then map_prod id Some (fill_et_ssm_ignore interp d)
               else if p = ''mean''
               then (case fill_mean d of
                       Inl e \<Rightarrow> (Some e, Some d)
                     | Inr d' \<Rightarrow> (None, Some d'))
               else if p = ''interpolate'' then map_prod id Some (fill_interpolate interp d)
               else (Some NotImplementedError, Some d)))"

definition fill_gaps_da ::
  "(data_array \<Rightarrow> data_array) \<Rightarrow> data_array option \<Rightarrow> string option \<Rightarrow> error + data_array option" where
  "fill_gaps_da interp da fill_nan =
     (case fill_gaps_da_run interp da fill_nan of
        (None, da') \<Rightarrow> Inr da'
      | (Some e, _) \<Rightarrow> Inl e)"

subsection \<open>Linear interpolation along the time axis\<close>





text \<open>The closed form of the \<^verbatim>\<open>mean\<close> policy, used to reason about its loop.\<close>

definition fillna :: "data_array \<Rightarrow> index \<Rightarrow> real option" where
  "fillna da ix = (case vals da ix of None \<Rightarrow> mean_val da ix | Some x \<Rightarrow> Some x)"

definition mean_filled :: "data_array \<Rightarrow> data_array" where
  "mean_filled da =
     da\<lparr>vals := (\<lambda>ix. if ix Variable < size_of da Variable then fillna da ix else vals da ix)\<rparr>"

section \<open>The window index: \<^verbatim>\<open>BaseDataset._create_lookup_table\<close>\<close>

text \<open>\<^verbatim>\<open>dates[f]\<close> on a numpy array: a negative position counts from the end, a position
  outside the array raises IndexError.\<close>

definition np_getitem :: "'a list \<Rightarrow> int \<Rightarrow> error + 'a" where
  "np_getitem xs f =
     (let n = int (length xs)
      in if 0 \<le> f \<and> f < n then Inr (xs ! nat f)
         else if - n \<le> f \<and> f < 0 then Inr (xs ! nat (n + f))
         else Inl IndexError)"

text \<open>The generator \<^verbatim>\<open>(basin, dates[f]) for f in ... if ...\<close>, consumed over the
  offsets \<open>fs\<close> that pass its filter; it stops at the first error.\<close>

fun basin_entries :: "string \<Rightarrow> int list \<Rightarrow> int list \<Rightarrow> error + (string \<times> int) list" where
  "basin_entries basin dates [] = Inr []"
| "basin_entries basin dates (f # fs) =
     (case np_getitem dates f of
        Inl e \<Rightarrow> Inl e
      | Inr d \<Rightarrow>
          (case basin_entries basin dates fs of
             Inl e \<Rightarrow> Inl e
           | Inr r \<Rightarrow> Inr ((basin, d) # r)))"

text \<open>\<^verbatim>\<open>range(warmup_length, time_length)\<close> filtered by \<^verbatim>\<open>f < time_length - rho + 1\<close>.\<close>

definition window_offsets :: "int \<Rightarrow> int \<Rightarrow> int \<Rightarrow> int list" where
  "window_offsets warmup_length time_length rho =
     filter (\<lambda>f. f < time_length - rho + 1) [warmup_length..time_length - 1]"

text \<open>The loop over the basins: \<^verbatim>\<open>lookup.extend(...)\<close>.\<close>

fun extend_lookup ::
  "string list \<Rightarrow> int list \<Rightarrow> int \<Rightarrow> int \<Rightarrow> (string \<times> int) list \<Rightarrow> error + (string \<times> int) list" where
  "extend_lookup [] dates warmup_length rho lookup = Inr lookup"
| "extend_lookup (basin # basins) dates warmup_length rho lookup =
     (case basin_entries basin dates (window_offsets warmup_length (int (length dates)) rho) of
        Inl e \<Rightarrow> Inl e
      | Inr r \<Rightarrow> extend_lookup basins dates warmup_length rho (lookup @ r))"

text \<open>\<^verbatim>\<open>dict(enumerate(lookup))\<close>: the table is kept as the list of its items, in insertion
  order; its keys are the integers from 0.\<close>

type_synonym lookup_table = "(int \<times> (string \<times> int)) list"

definition create_lookup_table ::
  "string list \<Rightarrow> int list \<Rightarrow> int \<Rightarrow> int \<Rightarrow> error + lookup_table" where
  "create_lookup_table basins dates warmup_length rho =
     (case extend_lookup basins dates warmup_length rho [] of
        Inl e \<Rightarrow> Inl e
      | Inr lookup \<Rightarrow> Inr (zip (map int [0..<length lookup]) lookup))"

section \<open>The data set: \<^verbatim>\<open>BaseDataset\<close>\<close>

text \<open>The configuration dictionary \<^verbatim>\<open>data_params\<close>: a key that is absent is \<open>None\<close>, and
  reading it raises KeyError.\<close>

record data_params =
  cfg_target_cols :: "string list option"
  cfg_relevant_cols :: "string list option"
  cfg_constant_cols :: "string list option"
  cfg_target_rm_nan :: "bool option"
  cfg_relevant_rm_nan :: "bool option"
  cfg_constant_rm_nan :: "bool option"
  cfg_forecast_history :: "int option"
  cfg_warmup_length :: "int option"
  cfg_batch_size :: "int option"

record t_s_dict_t =
  sites_id :: "string list"
  t_final_range :: "string list"

text \<open>An xarray \<^verbatim>\<open>Dataset\<close> as the data source returns it: data variables over common
  axes, each with its name, its \<^verbatim>\<open>units\<close> attribute when it has one, and its cells.\<close>

record xr_dataset =
  ds_dims :: "dim list"
  ds_basin :: "string list"
  ds_time :: "int list"
  ds_vars :: "(string \<times> string option \<times> (index \<Rightarrow> real option)) list"
  ds_coord_units :: "(string \<times> string) list"

text \<open>Everything outside the file: the data source (\<^verbatim>\<open>HydroDataset\<close>), the functions of
  \<^verbatim>\<open>data_scalers\<close> and xarray's interpolation. \<open>scaler_hub\<close> gives \<^verbatim>\<open>(x, y, c)\<close> of the
  \<^verbatim>\<open>ScalerHub\<close> object.\<close>

record externals =
  wrap_t_s_dict :: "data_params \<Rightarrow> string \<Rightarrow> t_s_dict_t"
  read_ts_xrdataset :: "string list \<Rightarrow> string list \<Rightarrow> string list \<Rightarrow> xr_dataset option"
  read_attr_xrdataset :: "string list \<Rightarrow> string list \<Rightarrow> xr_dataset option"
  read_area :: "string list \<Rightarrow> xr_dataset"
  unify_streamflow_unit :: "xr_dataset \<Rightarrow> xr_dataset \<Rightarrow> xr_dataset"
  scaler_hub ::
    "data_array option \<Rightarrow> data_array option \<Rightarrow> data_array option \<Rightarrow> data_params \<Rightarrow> string
      \<Rightarrow> data_array option \<times> data_array option \<times> data_array option"
  interpolate_na :: "data_array \<Rightarrow> data_array"

text \<open>The calls that reach the data source, in the order they are made.
  \<^verbatim>\<open>wrap_t_s_dict\<close> and \<^verbatim>\<open>ScalerHub\<close> are handed the data source and may call it.\<close>

datatype call =
    Call_wrap_t_s_dict
  | Call_read_ts_xrdataset "string list"
  | Call_read_attr_xrdataset "string list"
  | Call_read_area
  | Call_ScalerHub

record dataset =
  self_data_params :: data_params
  self_loader_type :: string
  self_t_s_dict :: t_s_dict_t
  self_x :: "data_array option"
  self_y :: "data_array option"
  self_c :: "data_array option"
  self_train_mode :: bool
  self_rho :: int
  self_warmup_length :: int
  self_lookup_table :: lookup_table
  self_num_samples :: nat

definition bind_err :: "error + 'a \<Rightarrow> ('a \<Rightarrow> error + 'b) \<Rightarrow> error + 'b" where
  "bind_err r f = (case r of Inl e \<Rightarrow> Inl e | Inr v \<Rightarrow> f v)"

text \<open>\<^verbatim>\<open>_trans2da_and_setunits\<close>: \<^verbatim>\<open>ds.to_array(dim="variable")\<close> puts the new axis first;
  the units of the variables and coordinates that have some are kept as an attribute.\<close>

definition trans2da_and_setunits :: "xr_dataset \<Rightarrow> data_array" where
  "trans2da_and_setunits ds =
     \<lparr>dims = Variable # ds_dims ds,
      basin_coord = ds_basin ds,
      time_coord = ds_time ds,
      variable_coord = map fst (ds_vars ds),
      vals = (\<lambda>ix. if ix Variable < length (ds_vars ds)
                    then snd (snd (ds_vars ds ! ix Variable)) ix else None),
      attrs_units = map_of (ds_coord_units ds @
         concat (map (\<lambda>(name, u, _). case u of None \<Rightarrow> [] | Some un \<Rightarrow> [(name, un)]) (ds_vars ds)))\<rparr>"

text \<open>\<^verbatim>\<open>kill_nan(x, c, y)\<close> reads its three switches, then fills in place and returns
  \<^verbatim>\<open>(x, y, c)\<close>.\<close>

definition kill_nan ::
  "externals \<Rightarrow> data_params \<Rightarrow> data_array option \<Rightarrow> data_array option \<Rightarrow> data_array option
    \<Rightarrow> error + (data_array option \<times> data_array option \<times> data_array option)" where
  "kill_nan ext params x c y =
     (case cfg_target_rm_nan params of
        None \<Rightarrow> Inl KeyError
      | Some y_rm_nan \<Rightarrow>
     (case cfg_relevant_rm_nan params of
        None \<Rightarrow> Inl KeyError
      | Some x_rm_nan \<Rightarrow>
     (case cfg_constant_rm_nan params of
        None \<Rightarrow> Inl KeyError
      | Some c_rm_nan \<Rightarrow>
          bind_err (if x_rm_nan then fill_gaps_da (interpolate_na ext) x (Some ''interpolate'')
                    else Inr x) (\<lambda>x'.
          bind_err (if y_rm_nan then fill_gaps_da (interpolate_na ext) y (Some ''interpolate'')
                    else Inr y) (\<lambda>y'.
          bind_err (if c_rm_nan then fill_gaps_da (interpolate_na ext) c (Some ''mean'')
                    else Inr c) (\<lambda>c'.
          Inr (x', y', c')))))))"

text \<open>\<^verbatim>\<open>_create_lookup_table\<close> on the object: the basins of \<^verbatim>\<open>t_s_dict\<close>, the time axis
  of \<open>y\<close>. Subscripting \<open>y\<close> when it is \<^verbatim>\<open>None\<close> raises TypeError.\<close>

definition BaseDataset_create_lookup_table :: "dataset \<Rightarrow> error + dataset" where
  "BaseDataset_create_lookup_table self =
     (case self_y self of
        None \<Rightarrow> Inl TypeError
      | Some y \<Rightarrow>
          bind_err (create_lookup_table (sites_id (self_t_s_dict self)) (time_coord y)
                      (self_warmup_length self) (self_rho self)) (\<lambda>table.
          Inr (self\<lparr>self_lookup_table := table, self_num_samples := length table\<rparr>)))"

text \<open>The end of \<^verbatim>\<open>_load_data\<close>, after the last call to code outside the file.\<close>

definition load_data_finish ::
  "externals \<Rightarrow> data_params \<Rightarrow> string \<Rightarrow> t_s_dict_t
    \<Rightarrow> data_array option \<times> data_array option \<times> data_array option \<Rightarrow> error + dataset" where
  "load_data_finish ext params loader_type tsd scaled =
     (case scaled of (sx, sy, sc) \<Rightarrow>
        bind_err (kill_nan ext params sx sc sy) (\<lambda>(x, y, c).
        (case cfg_forecast_history params of
           None \<Rightarrow> Inl KeyError
         | Some rho \<Rightarrow>
        (case cfg_warmup_length params of
           None \<Rightarrow> Inl KeyError
         | Some warmup_length \<Rightarrow>
             BaseDataset_create_lookup_table
               \<lparr>self_data_params = params, self_loader_type = loader_type,
                self_t_s_dict = tsd, self_x = x, self_y = y, self_c = c,
                self_train_mode = (loader_type = ''train''), self_rho = rho,
                self_warmup_length = warmup_length, self_lookup_table = [],
                self_num_samples = 0\<rparr>))))"

text \<open>\<^verbatim>\<open>_load_data\<close>, with the calls it makes. A configuration key is read when the call
  that takes it is made.\<close>

definition load_data :: "externals \<Rightarrow> data_params \<Rightarrow> string \<Rightarrow> (error + dataset) \<times> call list" where
  "load_data ext params loader_type =
     (let tsd = wrap_t_s_dict ext params loader_type;
          log1 = [Call_wrap_t_s_dict]
      in case cfg_target_cols params of
           None \<Rightarrow> (Inl KeyError, log1)
         | Some target_cols \<Rightarrow>
     (let data_flow_ds = read_ts_xrdataset ext (sites_id tsd) (t_final_range tsd) target_cols;
          log2 = log1 @ [Call_read_ts_xrdataset target_cols]
      in case cfg_relevant_cols params of
           None \<Rightarrow> (Inl KeyError, log2)
         | Some relevant_cols \<Rightarrow>
     (let data_forcing_ds = read_ts_xrdataset ext (sites_id tsd) (t_final_range tsd) relevant_cols;
          log3 = log2 @ [Call_read_ts_xrdataset relevant_cols]
      in case cfg_constant_cols params of
           None \<Rightarrow> (Inl KeyError, log3)
         | Some constant_cols \<Rightarrow>
     (let data_attr_ds = read_attr_xrdataset ext (sites_id tsd) constant_cols;
          log4 = log3 @ [Call_read_attr_xrdataset constant_cols];
          data_flow = (case data_flow_ds of
                         None \<Rightarrow> None
                       | Some ds \<Rightarrow> Some (trans2da_and_setunits
                            (unify_streamflow_unit ext ds (read_area ext (sites_id tsd)))));
          log5 = (case data_flow_ds of None \<Rightarrow> log4 | Some _ \<Rightarrow> log4 @ [Call_read_area]);
          data_forcing = map_option trans2da_and_setunits data_forcing_ds;
          data_attr = map_option trans2da_and_setunits data_attr_ds;
          scaled = scaler_hub ext data_flow data_forcing data_attr params loader_type;
          log6 = log5 @ [Call_ScalerHub]
      in (load_data_finish ext params loader_type tsd scaled, log6)))))"

text \<open>\<^verbatim>\<open>BaseDataset.__init__\<close>: the result and the calls made. The three subclasses call it
  unchanged.\<close>

definition BaseDataset_init ::
  "externals \<Rightarrow> data_params \<Rightarrow> string \<Rightarrow> (error + dataset) \<times> call list" where
  "BaseDataset_init ext params loader_type =
     (if loader_type \<in> {''train'', ''valid'', ''test''} then load_data ext params loader_type
      else (Inl ValueError, []))"


section \<open>Sample extraction: \<^verbatim>\<open>BaseDataset.__getitem__\<close>\<close>

text \<open>The numpy arrays that a selection gives: without an axis, with one, with two (a
  list of rows).\<close>

datatype ndarray = Arr0 "real option" | Arr1 "real option list" | Arr2 "real option list list"

fun label_pos :: "'a list \<Rightarrow> 'a \<Rightarrow> nat option" where
  "label_pos [] l = None"
| "label_pos (k # ks) l = (if k = l then Some 0 else map_option Suc (label_pos ks l))"

text \<open>A label slice \<^verbatim>\<open>time=slice(a, b)\<close> on an ascending time axis keeps the positions
  whose time stamp lies in the closed range.\<close>

definition time_slice :: "data_array \<Rightarrow> int \<Rightarrow> int \<Rightarrow> nat list" where
  "time_slice da a b =
     filter (\<lambda>t. a \<le> time_coord da ! t \<and> time_coord da ! t \<le> b) [0..<length (time_coord da)]"

definition axis_positions :: "data_array \<Rightarrow> nat list option \<Rightarrow> dim \<Rightarrow> nat list" where
  "axis_positions da ts d =
     (case ts of
        None \<Rightarrow> [0..<size_of da d]
      | Some l \<Rightarrow> if d = Time then l else [0..<size_of da d])"

text \<open>\<^verbatim>\<open>da.sel(basin=basin, ...).to_numpy()\<close>, with \<^verbatim>\<open>.T\<close> applied when \<open>transposed\<close>:
  the axes left after the basin is chosen, over the time positions \<open>ts\<close> when a time slice
  was given. An unknown basin label raises KeyError. xarray never repeats an axis name,
  so at most two axes are left.\<close>

definition sel_basin :: "data_array \<Rightarrow> string \<Rightarrow> nat list option \<Rightarrow> bool \<Rightarrow> error + ndarray" where
  "sel_basin da basin ts transposed =
     (if Basin \<notin> set (dims da) then Inl KeyError
      else case label_pos (basin_coord da) basin of
        None \<Rightarrow> Inl KeyError
      | Some b \<Rightarrow>
          (let base = (\<lambda>_. 0)(Basin := b);
               pos = axis_positions da ts
           in case filter (\<lambda>d. d \<noteq> Basin) (dims da) of
                [] \<Rightarrow> Inr (Arr0 (vals da base))
              | [d1] \<Rightarrow> Inr (Arr1 (map (\<lambda>i. vals da (base(d1 := i))) (pos d1)))
              | [d1, d2] \<Rightarrow>
                  Inr (if transposed
                       then Arr2 (map (\<lambda>j. map (\<lambda>i. vals da (base(d1 := i, d2 := j))) (pos d1)) (pos d2))
                       else Arr2 (map (\<lambda>i. map (\<lambda>j. vals da (base(d1 := i, d2 := j))) (pos d2)) (pos d1)))
              | _ \<Rightarrow> Inl ValueError))"

definition sel_basin_time :: "data_array \<Rightarrow> string \<Rightarrow> int \<Rightarrow> int \<Rightarrow> error + ndarray" where
  "sel_basin_time da basin a b =
     (if Time \<notin> set (dims da) then Inl KeyError
      else sel_basin da basin (Some (time_slice da a b)) True)"

text \<open>\<^verbatim>\<open>np.tile(c, (n, 1))\<close>: \<open>n\<close> copies of the rows of \<open>c\<close>; a negative \<open>n\<close> raises.\<close>

definition np_tile :: "ndarray \<Rightarrow> int \<Rightarrow> error + real option list list" where
  "np_tile c n =
     (if n < 0 then Inl ValueError
      else Inr (case c of
                  Arr0 v \<Rightarrow> replicate (nat n) [v]
                | Arr1 r \<Rightarrow> replicate (nat n) r
                | Arr2 m \<Rightarrow> concat (replicate (nat n) m)))"

text \<open>\<^verbatim>\<open>np.concatenate((x, c), axis=1)\<close>: both arrays have two axes and as many rows as
  each other, or numpy raises ValueError.\<close>

definition np_concatenate :: "ndarray \<Rightarrow> real option list list \<Rightarrow> error + ndarray" where
  "np_concatenate x c =
     (case x of
        Arr2 xm \<Rightarrow> if length xm = length c then Inr (Arr2 (map (\<lambda>(r, s). r @ s) (zip xm c)))
                    else Inl ValueError
      | _ \<Rightarrow> Inl ValueError)"

text \<open>Time stamps count nanoseconds. \<^verbatim>\<open>np.timedelta64(n, "D")\<close> is \<open>n\<close> days.
  \<^verbatim>\<open>np.timedelta64(n)\<close>, written without a unit, takes the unit of the time stamp it is
  subtracted from, one tick; the model takes the ticks \<open>generic_unit\<close> of that unit as a
  parameter, and the program is the model at 1.\<close>

definition ticks_per_day :: int where
  "ticks_per_day = 86400000000000"

definition getitem_sample :: "int \<Rightarrow> dataset \<Rightarrow> int \<Rightarrow> error + (ndarray \<times> ndarray)" where
  "getitem_sample generic_unit self item =
     (case map_of (self_lookup_table self) item of
        None \<Rightarrow> Inl KeyError
      | Some (basin, time) \<Rightarrow>
     (let seq_length = self_rho self;
          warmup_length = self_warmup_length self
      in case self_x self of
           None \<Rightarrow> Inl AttributeError
         | Some xa \<Rightarrow>
        bind_err (sel_basin_time xa basin (time - warmup_length * generic_unit)
                    (time + (seq_length - 1) * ticks_per_day)) (\<lambda>x.
        bind_err (case self_c self of
                    None \<Rightarrow> Inr x
                  | Some ca \<Rightarrow>
                      if dims ca = [] then Inl IndexError
                      else if last (shape ca) > 0
                      then bind_err (sel_basin ca basin None False) (\<lambda>c.
                           bind_err (np_tile c seq_length) (\<lambda>c.
                           np_concatenate x c))
                      else Inr x) (\<lambda>x.
        (case self_y self of
           None \<Rightarrow> Inl AttributeError
         | Some ya \<Rightarrow>
        bind_err (sel_basin_time ya basin time (time + (seq_length - 1) * ticks_per_day)) (\<lambda>y.
        Inr (x, y)))))))"

text \<open>\<^verbatim>\<open>__getitem__\<close> assigns to local names only; the object it returns with the sample
  is the object it was given.\<close>

definition BaseDataset_getitem_with ::
  "int \<Rightarrow> dataset \<Rightarrow> int \<Rightarrow> (error + (ndarray \<times> ndarray)) \<times> dataset" where
  "BaseDataset_getitem_with generic_unit self item = (getitem_sample generic_unit self item, self)"

definition BaseDataset_getitem :: "dataset \<Rightarrow> int \<Rightarrow> (error + (ndarray \<times> ndarray)) \<times> dataset" where
  "BaseDataset_getitem self item = BaseDataset_getitem_with 1 self item"

text \<open>The shape of an array with two axes and at least one row.\<close>

definition shape2 :: "ndarray \<Rightarrow> (nat \<times> nat) option" where
  "shape2 a = (case a of Arr2 (r # rs) \<Rightarrow> Some (length (r # rs), length r) | _ \<Rightarrow> None)"

section \<open>Sample extraction on a store\<close>

text \<open>
  What \<^verbatim>\<open>__getitem__\<close> does to the memory of the arrays it reads is not visible in
  \<open>getitem_sample\<close>, which computes values. Here the arrays live in a store, a list of
  arrays with their element types, and \<^verbatim>\<open>__getitem__\<close> is a function on stores: it reads
  through views that share the memory of the stored arrays and allocates the arrays
  that numpy and torch create.
\<close>

text \<open>An address is a position in the store.\<close>

type_synonym addr = nat

text \<open>The element type of an array; \<^verbatim>\<open>.float()\<close> asks for the first.\<close>

datatype dtype = Float32 | Float64

text \<open>What an address holds: a labelled array (an \<^verbatim>\<open>xr.DataArray\<close>) or a plain array of numbers
  (the memory of a numpy array or of a tensor).\<close>

datatype contents = Labelled data_array | Plain ndarray

type_synonym store = "(dtype \<times> contents) list"

text \<open>A numpy array or a tensor is a view: the address of the memory it uses and the part
  of it that it shows, all of a plain array or the selection \<^verbatim>\<open>sel(basin=..., time=...)\<close> of a
  labelled one, transposed or not. A write through a view would change the store at the
  address of the view.\<close>

datatype selection = Whole | Selected string "nat list option" bool

record view =
  v_addr :: addr
  v_sel :: selection

text \<open>The labelled array at an address, if there is one.\<close>

definition labelled_at :: "store \<Rightarrow> addr \<Rightarrow> data_array option" where
  "labelled_at h p =
     (if p < length h then (case snd (h ! p) of Labelled da \<Rightarrow> Some da | Plain _ \<Rightarrow> None)
      else None)"

definition dtype_at :: "store \<Rightarrow> addr \<Rightarrow> dtype option" where
  "dtype_at h p = (if p < length h then Some (fst (h ! p)) else None)"

text \<open>The numbers that a view shows.\<close>

definition read_view :: "store \<Rightarrow> view \<Rightarrow> ndarray option" where
  "read_view h v =
     (if v_addr v < length h
      then (case (snd (h ! v_addr v), v_sel v) of
              (Labelled da, Selected basin ts transposed) \<Rightarrow>
                 (case sel_basin da basin ts transposed of Inl _ \<Rightarrow> None | Inr a \<Rightarrow> Some a)
            | (Plain a, Whole) \<Rightarrow> Some a
            | _ \<Rightarrow> None)
      else None)"

text \<open>A new array goes to the end of the store; nothing that was there moves or changes.\<close>

definition alloc :: "store \<Rightarrow> dtype \<Rightarrow> ndarray \<Rightarrow> store \<times> view" where
  "alloc h dt a = (h @ [(dt, Plain a)], \<lparr>v_addr = length h, v_sel = Whole\<rparr>)"

text \<open>numpy's result type of two float types.\<close>

definition result_type :: "dtype option \<Rightarrow> dtype option \<Rightarrow> dtype" where
  "result_type a b = (if a = Some Float32 \<and> b = Some Float32 then Float32 else Float64)"

text \<open>The object \<^verbatim>\<open>self\<close>: its attributes \<open>x\<close>, \<open>y\<close>, \<open>c\<close> are references into the store, or \<open>None\<close>.\<close>

record py_dataset =
  obj_data_params :: data_params
  obj_loader_type :: string
  obj_t_s_dict :: t_s_dict_t
  obj_x :: "addr option"
  obj_y :: "addr option"
  obj_c :: "addr option"
  obj_train_mode :: bool
  obj_rho :: int
  obj_warmup_length :: int
  obj_lookup_table :: lookup_table
  obj_num_samples :: nat

text \<open>Reading an attribute: the labelled array it refers to; a reference to no labelled
  array reads as \<open>None\<close>.\<close>

definition attr_array :: "store \<Rightarrow> addr option \<Rightarrow> data_array option" where
  "attr_array h ref = (case ref of None \<Rightarrow> None | Some p \<Rightarrow> labelled_at h p)"

text \<open>The data set that an object stands for in a store: the arrays in place of the
  references.\<close>

definition stored_dataset :: "store \<Rightarrow> py_dataset \<Rightarrow> dataset" where
  "stored_dataset h obj =
     \<lparr>self_data_params = obj_data_params obj, self_loader_type = obj_loader_type obj,
      self_t_s_dict = obj_t_s_dict obj,
      self_x = attr_array h (obj_x obj), self_y = attr_array h (obj_y obj),
      self_c = attr_array h (obj_c obj),
      self_train_mode = obj_train_mode obj, self_rho = obj_rho obj,
      self_warmup_length = obj_warmup_length obj,
      self_lookup_table = obj_lookup_table obj, self_num_samples = obj_num_samples obj\<rparr>"

text \<open>\<^verbatim>\<open>self.x.sel(basin=basin, time=slice(a, b)).to_numpy().T\<close>: selecting by a label and a
  slice is basic indexing, so the result is a view of the stored array; \<^verbatim>\<open>to_numpy\<close> and
  \<^verbatim>\<open>.T\<close> copy nothing. It raises as \<open>sel_basin_time\<close> does.\<close>

definition sel_view :: "store \<Rightarrow> addr option \<Rightarrow> string \<Rightarrow> int \<Rightarrow> int \<Rightarrow> error + view" where
  "sel_view h ref basin a b =
     (case ref of
        None \<Rightarrow> Inl AttributeError
      | Some p \<Rightarrow>
          (case labelled_at h p of
             None \<Rightarrow> Inl AttributeError
           | Some da \<Rightarrow>
               (case sel_basin_time da basin a b of
                  Inl e \<Rightarrow> Inl e
                | Inr _ \<Rightarrow> Inr \<lparr>v_addr = p,
                               v_sel = Selected basin (Some (time_slice da a b)) True\<rparr>)))"

text \<open>The branch \<^verbatim>\<open>if self.c is not None and self.c.shape[-1] > 0\<close>: \<^verbatim>\<open>np.tile\<close> and
  \<^verbatim>\<open>np.concatenate\<close> each make a new array; \<^verbatim>\<open>np.tile\<close> keeps the element type of \<open>c\<close>. The
  store is returned also when a call raises, with what was allocated before.\<close>

definition attach_static ::
  "store \<Rightarrow> addr option \<Rightarrow> string \<Rightarrow> int \<Rightarrow> view \<Rightarrow> (error + view) \<times> store" where
  "attach_static h ref basin seq_length xv =
     (case ref of
        None \<Rightarrow> (Inr xv, h)
      | Some p \<Rightarrow>
          (case labelled_at h p of
             None \<Rightarrow> (Inr xv, h)
           | Some ca \<Rightarrow>
               if dims ca = [] then (Inl IndexError, h)
               else if last (shape ca) > 0
               then (case sel_basin ca basin None False of
                       Inl e \<Rightarrow> (Inl e, h)
                     | Inr c \<Rightarrow>
                         (case np_tile c seq_length of
                            Inl e \<Rightarrow> (Inl e, h)
                          | Inr tiled \<Rightarrow>
                              (let (h1, cv) = alloc h (result_type (dtype_at h p) (dtype_at h p))
                                                (Arr2 tiled)
                               in case read_view h1 xv of
                                    None \<Rightarrow> (Inl ValueError, h1)
                                  | Some x \<Rightarrow>
                                      (case np_concatenate x tiled of
                                         Inl e \<Rightarrow> (Inl e, h1)
                                       | Inr xc \<Rightarrow>
                                           (let (h2, xcv) =
                                                  alloc h1 (result_type (dtype_at h1 (v_addr xv))
                                                              (dtype_at h1 (v_addr cv))) xc
                                            in (Inr xcv, h2))))))
               else (Inr xv, h)))"

text \<open>\<^verbatim>\<open>torch.from_numpy(v).float()\<close>: \<^verbatim>\<open>from_numpy\<close> shares the memory of the array, and
  \<^verbatim>\<open>.float()\<close> returns the tensor itself when its elements are \<^verbatim>\<open>float32\<close> already, a new
  tensor otherwise.\<close>

definition to_float :: "store \<Rightarrow> view \<Rightarrow> store \<times> view" where
  "to_float h v =
     (if dtype_at h (v_addr v) = Some Float32 then (h, v)
      else (case read_view h v of None \<Rightarrow> (h, v) | Some a \<Rightarrow> alloc h Float32 a))"

text \<open>\<^verbatim>\<open>__getitem__\<close> on an object and a store: the views returned, the object and the store
  after the call.\<close>

definition getitem_store ::
  "int \<Rightarrow> py_dataset \<Rightarrow> store \<Rightarrow> int \<Rightarrow> (error + (view \<times> view)) \<times> py_dataset \<times> store" where
  "getitem_store generic_unit obj h item =
     (case map_of (obj_lookup_table obj) item of
        None \<Rightarrow> (Inl KeyError, obj, h)
      | Some (basin, time) \<Rightarrow>
     (let seq_length = obj_rho obj;
          warmup_length = obj_warmup_length obj
      in case sel_view h (obj_x obj) basin (time - warmup_length * generic_unit)
                (time + (seq_length - 1) * ticks_per_day) of
           Inl e \<Rightarrow> (Inl e, obj, h)
         | Inr xv \<Rightarrow>
        (case attach_static h (obj_c obj) basin seq_length xv of
           (Inl e, h1) \<Rightarrow> (Inl e, obj, h1)
         | (Inr xv1, h1) \<Rightarrow>
        (case sel_view h1 (obj_y obj) basin time (time + (seq_length - 1) * ticks_per_day) of
           Inl e \<Rightarrow> (Inl e, obj, h1)
         | Inr yv \<Rightarrow>
        (let (h2, xt) = to_float h1 xv1;
             (h3, yt) = to_float h2 yv
         in (Inr (xt, yt), obj, h3))))))"

text \<open>A store extends another when it is the other followed by plain arrays.\<close>

definition is_plain :: "dtype \<times> contents \<Rightarrow> bool" where
  "is_plain cell = (case snd cell of Plain _ \<Rightarrow> True | Labelled _ \<Rightarrow> False)"

definition extends :: "store \<Rightarrow> store \<Rightarrow> bool" where
  "extends h h' = (take (length h) h' = h \<and> list_all is_plain (drop (length h) h'))"

definition BaseDataset_getitem_store ::
  "py_dataset \<Rightarrow> store \<Rightarrow> int \<Rightarrow> (error + (view \<times> view)) \<times> py_dataset \<times> store" where
  "BaseDataset_getitem_store obj h item = getitem_store 1 obj h item"

text \<open>The static attributes part of \<open>getitem_sample\<close>, by itself.\<close>

definition static_part :: "data_array option \<Rightarrow> string \<Rightarrow> int \<Rightarrow> ndarray \<Rightarrow> error + ndarray" where
  "static_part c basin n x = (case c of
                    None \<Rightarrow> Inr x
                  | Some ca \<Rightarrow>
                      if dims ca = [] then Inl IndexError
                      else if last (shape ca) > 0
                      then bind_err (sel_basin ca basin None False) (\<lambda>c.
                           bind_err (np_tile c n) (\<lambda>c.
                           np_concatenate x c))
                      else Inr x)"

section \<open>Lengths\<close>

definition BaseDataset_len :: "dataset \<Rightarrow> nat" where
  "BaseDataset_len self = self_num_samples self"

definition BasinFlowDataset_init ::
  "externals \<Rightarrow> data_params \<Rightarrow> string \<Rightarrow> (error + dataset) \<times> call list" where
  "BasinFlowDataset_init ext params loader_type = BaseDataset_init ext params loader_type"

definition BasinFlowDataset_len :: "dataset \<Rightarrow> nat" where
  "BasinFlowDataset_len self =
     (if self_train_mode self then self_num_samples self
      else length (sites_id (self_t_s_dict self)))"

subsection \<open>\<^verbatim>\<open>KuaiDataset.__len__\<close>\<close>

text \<open>\<^verbatim>\<open>int(batch_size / 10)\<close>: the quotient as a float, cut towards zero. The float
  quotient is taken as exact, which it is for every batch size below \<open>2 ^ 49\<close>.\<close>

definition py_int_div10 :: "int \<Rightarrow> int" where
  "py_int_div10 b = (if 0 \<le> b then b div 10 else - ((- b) div 10))"

text \<open>The loop \<^verbatim>\<open>while batch_size * rho >= ngrid * nt: batch_size = int(batch_size / 10)\<close>.
  It is \<open>None\<close> when it runs forever.\<close>

partial_function (option) shrink_batch_size :: "int \<Rightarrow> int \<Rightarrow> int \<Rightarrow> int option" where
  "shrink_batch_size batch_size rho ngrid_nt =
     (if batch_size * rho \<ge> ngrid_nt
      then shrink_batch_size (py_int_div10 batch_size) rho ngrid_nt
      else Some batch_size)"

text \<open>\<^verbatim>\<open>int(np.ceil(np.log(0.01) / np.log(1 - batch_size * rho / ngrid / (nt - warmup_length))))\<close>
  followed by \<^verbatim>\<open>assert n_iter_ep >= 1\<close>, over the real numbers. Python raises on a division
  by zero; the logarithm of a negative number is NaN, which \<^verbatim>\<open>int\<close> refuses with
  ValueError; the logarithm of 0 is minus infinity, the quotient 0 and the assertion
  fails; the logarithm of 1 is 0, the quotient minus infinity, which \<^verbatim>\<open>int\<close> refuses with
  OverflowError.\<close>

definition n_iter_ep :: "int \<Rightarrow> int \<Rightarrow> nat \<Rightarrow> nat \<Rightarrow> int \<Rightarrow> error + int" where
  "n_iter_ep batch_size rho ngrid nt warmup_length =
     (if ngrid = 0 then Inl ZeroDivisionError
      else if int nt - warmup_length = 0 then Inl ZeroDivisionError
      else
        (let p = 1 - real_of_int (batch_size * rho) / real ngrid
                       / real_of_int (int nt - warmup_length)
         in if p < 0 then Inl ValueError
            else if p = 0 then Inl AssertionError
            else if p = 1 then Inl OverflowError
            else (let n = \<lceil>ln 0.01 / ln p\<rceil>
                  in if n \<ge> 1 then Inr n else Inl AssertionError)))"

definition KuaiDataset_len_train ::
  "int \<Rightarrow> int \<Rightarrow> int \<Rightarrow> nat \<Rightarrow> nat \<Rightarrow> (error + int) option" where
  "KuaiDataset_len_train batch_size rho warmup_length ngrid nt =
     (case shrink_batch_size batch_size rho (int ngrid * int nt) of
        None \<Rightarrow> None
      | Some b \<Rightarrow>
          (let bs = max b 1
           in Some (bind_err (n_iter_ep bs rho ngrid nt warmup_length) (\<lambda>n. Inr (n * bs)))))"

definition KuaiDataset_len :: "dataset \<Rightarrow> (error + int) option" where
  "KuaiDataset_len self =
     (if \<not> self_train_mode self then Some (Inr (int (length (sites_id (self_t_s_dict self)))))
      else case cfg_batch_size (self_data_params self) of
        None \<Rightarrow> Some (Inl KeyError)
      | Some batch_size \<Rightarrow>
     (case cfg_warmup_length (self_data_params self) of
        None \<Rightarrow> Some (Inl KeyError)
      | Some warmup_length \<Rightarrow>
     (case self_y self of
        None \<Rightarrow> Some (Inl AttributeError)
      | Some y \<Rightarrow>
          KuaiDataset_len_train batch_size (self_rho self) warmup_length
            (size_of y Basin) (size_of y Time))))"


section \<open>The window index as the specification words it\<close>

text \<open>The offsets \<open>f\<close> of a time axis of length \<open>n\<close> with \<open>warmup_length \<le> f\<close> and
  \<open>f < time_length - rho + 1\<close>, in ascending order.\<close>

definition valid_offsets :: "int \<Rightarrow> nat \<Rightarrow> int \<Rightarrow> nat list" where
  "valid_offsets w n rho = filter (\<lambda>f. w \<le> int f \<and> int f < int n - rho + 1) [0..<n]"

section \<open>Example inputs\<close>

text \<open>Two basins over three days, one series each: the second day is missing in both
  basins, and the first day is missing in the second basin as well.\<close>

definition ex_series :: data_array where
  "ex_series =
     \<lparr>dims = [Basin, Time],
      basin_coord = [''b0'', ''b1''],
      time_coord = [0, ticks_per_day, 2 * ticks_per_day],
      variable_coord = [],
      vals = (\<lambda>ix. if ix Time = 1 \<or> (ix Basin = 1 \<and> ix Time = 0) then None
                    else Some (real (ix Basin + ix Time))),
      attrs_units = Map.empty\<rparr>"

text \<open>One static attribute of two basins, known for the first basin only.\<close>

definition ex_attrs :: data_array where
  "ex_attrs =
     \<lparr>dims = [Variable, Basin],
      basin_coord = [''b0'', ''b1''],
      time_coord = [],
      variable_coord = [''area''],
      vals = (\<lambda>ix. if ix Basin = 0 then Some 4 else None),
      attrs_units = Map.empty\<rparr>"



text \<open>A data set of two basins over four days, with one forcing variable, one target
  variable and one static attribute, a warm-up of one day and a horizon of two days.\<close>

definition ex_x :: data_array where
  "ex_x =
     \<lparr>dims = [Variable, Basin, Time],
      basin_coord = [''b0'', ''b1''],
      time_coord = [0, ticks_per_day, 2 * ticks_per_day, 3 * ticks_per_day],
      variable_coord = [''prcp''],
      vals = (\<lambda>ix. Some (real (10 * ix Basin + ix Time))),
      attrs_units = Map.empty\<rparr>"

definition ex_y :: data_array where
  "ex_y =
     \<lparr>dims = [Variable, Basin, Time],
      basin_coord = [''b0'', ''b1''],
      time_coord = [0, ticks_per_day, 2 * ticks_per_day, 3 * ticks_per_day],
      variable_coord = [''streamflow''],
      vals = (\<lambda>ix. Some (real (100 + 10 * ix Basin + ix Time))),
      attrs_units = Map.empty\<rparr>"

definition ex_c :: data_array where
  "ex_c =
     \<lparr>dims = [Variable, Basin],
      basin_coord = [''b0'', ''b1''],
      time_coord = [],
      variable_coord = [''area''],
      vals = (\<lambda>ix. Some (real (4 + ix Basin))),
      attrs_units = Map.empty\<rparr>"

definition ex_params :: data_params where
  "ex_params =
     \<lparr>cfg_target_cols = Some [''streamflow''],
      cfg_relevant_cols = Some [''prcp''],
      cfg_constant_cols = Some [''area''],
      cfg_target_rm_nan = Some False,
      cfg_relevant_rm_nan = Some False,
      cfg_constant_rm_nan = Some False,
      cfg_forecast_history = Some 2,
      cfg_warmup_length = Some 1,
      cfg_batch_size = Some 5\<rparr>"

definition ex_t_s_dict :: t_s_dict_t where
  "ex_t_s_dict = \<lparr>sites_id = [''b0'', ''b1''], t_final_range = [''2000-01-01'', ''2000-01-05'']\<rparr>"

text \<open>A data source without raw data, and a scaler that gives the three arrays above.\<close>

definition ex_ext :: externals where
  "ex_ext =
     \<lparr>wrap_t_s_dict = (\<lambda>_ _. ex_t_s_dict),
      read_ts_xrdataset = (\<lambda>_ _ _. None),
      read_attr_xrdataset = (\<lambda>_ _. None),
      read_area = (\<lambda>_. \<lparr>ds_dims = [Basin], ds_basin = [], ds_time = [], ds_vars = [],
                          ds_coord_units = []\<rparr>),
      unify_streamflow_unit = (\<lambda>ds _. ds),
      scaler_hub = (\<lambda>_ _ _ _ _. (Some ex_x, Some ex_y, Some ex_c)),
      interpolate_na = (\<lambda>da. da)\<rparr>"

definition ex_table :: lookup_table where
  "ex_table =
     [(0, (''b0'', ticks_per_day)), (1, (''b0'', 2 * ticks_per_day)),
      (2, (''b1'', ticks_per_day)), (3, (''b1'', 2 * ticks_per_day))]"

definition ex_dataset :: "string \<Rightarrow> dataset" where
  "ex_dataset loader_type =
     \<lparr>self_data_params = ex_params, self_loader_type = loader_type,
      self_t_s_dict = ex_t_s_dict, self_x = Some ex_x, self_y = Some ex_y, self_c = Some ex_c,
      self_train_mode = (loader_type = ''train''), self_rho = 2, self_warmup_length = 1,
      self_lookup_table = ex_table, self_num_samples = 4\<rparr>"

text \<open>The example data set in a store: \<open>y\<close> is stored as \<^verbatim>\<open>float32\<close>, \<open>x\<close> and \<open>c\<close> as
  \<^verbatim>\<open>float64\<close>.\<close>

definition ex_store :: store where
  "ex_store = [(Float64, Labelled ex_x), (Float32, Labelled ex_y), (Float64, Labelled ex_c)]"

definition ex_object :: "string \<Rightarrow> py_dataset" where
  "ex_object loader_type =
     \<lparr>obj_data_params = ex_params, obj_loader_type = loader_type,
      obj_t_s_dict = ex_t_s_dict, obj_x = Some 0, obj_y = Some 1, obj_c = Some 2,
      obj_train_mode = (loader_type = ''train''), obj_rho = 2, obj_warmup_length = 1,
      obj_lookup_table = ex_table, obj_num_samples = 4\<rparr>"

section \<open>Properties of the gap filling\<close>


lemma run_loop_raises:
  "fst (run_loop step js da) = Some e \<Longrightarrow> \<exists>i d. step i d = Inl e"
proof (induction js arbitrary: da)
  case Nil
  then show ?case by simp
next
  case (Cons j js)
  then show ?case by (cases "step j da") auto
qed


lemma interpolate_na_time_raises:
  "interpolate_na_time interp da = Inl e \<Longrightarrow> e = KeyError \<or> e = ValueError \<or> e = IndexError"
  by (auto simp: interpolate_na_time_def split: if_splits)

lemma assign_interp_raises:
  "assign_interp interp d0 d1 idx i da = Inl e \<Longrightarrow>
     e = KeyError \<or> e = ValueError \<or> e = IndexError"
  using interpolate_na_time_raises[of interp _ e]
  by (auto simp: assign_interp_def Let_def split: sum.splits)

lemma interpolate_step_raises:
  "interpolate_step interp d0 i da = Inl e \<Longrightarrow>
     e = KeyError \<or> e = ValueError \<or> e = IndexError"
  using interpolate_na_time_raises[of interp _ e]
  by (auto simp: interpolate_step_def split: sum.splits)





lemma fill_et_ssm_ignore_raises:
  "fst (fill_et_ssm_ignore interp da) \<noteq> Some NotImplementedError"
proof
  assume a: "fst (fill_et_ssm_ignore interp da) = Some NotImplementedError"
  show False
  proof (cases "dims da")
    case Nil
    then show ?thesis using a by (simp add: fill_et_ssm_ignore_def)
  next
    case (Cons d0 ds)
    show ?thesis
    proof (cases ds)
      case Nil
      then show ?thesis using a Cons by (simp add: fill_et_ssm_ignore_def split: if_splits)
    next
      case (Cons d1 rest)
      with \<open>dims da = d0 # ds\<close> a
      have "fst (run_loop (assign_interp interp d0 d1 (non_nan_idx da d0 d1 rest))
                   [0..<size_of da d0] da) = Some NotImplementedError"
        by (simp add: fill_et_ssm_ignore_def)
      from run_loop_raises[OF this] show ?thesis
        using assign_interp_raises by blast
    qed
  qed
qed

lemma fill_interpolate_raises:
  "fst (fill_interpolate interp da) \<noteq> Some NotImplementedError"
proof
  assume a: "fst (fill_interpolate interp da) = Some NotImplementedError"
  show False
  proof (cases "dims da")
    case Nil
    then show ?thesis using a by (simp add: fill_interpolate_def)
  next
    case (Cons d0 ds)
    with a have "fst (run_loop (interpolate_step interp d0) [0..<size_of da d0] da)
                   = Some NotImplementedError"
      by (simp add: fill_interpolate_def)
    from run_loop_raises[OF this] show ?thesis
      using interpolate_step_raises by blast
  qed
qed

lemma fill_mean_raises: "fill_mean da \<noteq> Inl NotImplementedError"
  by (simp add: fill_mean_def)

lemma fill_gaps_da_mean:
  "fill_gaps_da interp (Some d) (Some ''mean'') = map_sum id Some (fill_mean d)"
  by (simp add: fill_gaps_da_def fill_gaps_da_run_def split: sum.splits)




lemma nanmean_None: "nanmean xs = None \<longleftrightarrow> (\<forall>x\<in>set xs. x = None)"
proof -
  have "concat (map (\<lambda>x. case x of None \<Rightarrow> [] | Some y \<Rightarrow> [y]) xs) = [] \<longleftrightarrow> (\<forall>x\<in>set xs. x = None)"
    by (induction xs) (auto split: option.splits)
  then show ?thesis by (simp add: nanmean_def Let_def)
qed

lemma positions_bound:
  "ix \<in> set (positions da ds) \<Longrightarrow> d \<in> set ds \<Longrightarrow> ix d < size_of da d"
  by (induction ds arbitrary: ix) auto





lemma fill_mean_var_fields:
  "dims (fill_mean_var v da) = dims da"
  "basin_coord (fill_mean_var v da) = basin_coord da"
  "time_coord (fill_mean_var v da) = time_coord da"
  "variable_coord (fill_mean_var v da) = variable_coord da"
  "attrs_units (fill_mean_var v da) = attrs_units da"
  "data_array.more (fill_mean_var v da) = data_array.more da"
  "size_of (fill_mean_var v da) d = size_of da d"
  by (simp_all add: fill_mean_var_def size_of_def split: dim.splits)

lemma vals_fill_mean_var:
  "vals (fill_mean_var v da) ix =
     (if ix Variable = v then (case vals da ix of None \<Rightarrow> mean_val da ix | Some x \<Rightarrow> Some x)
      else vals da ix)"
  by (simp add: fill_mean_var_def)

lemma mean_val_basin_upd: "mean_val da (ix(Basin := b)) = mean_val da ix"
  by (simp add: mean_val_def)

lemma mean_val_fill_other:
  "ix Variable \<noteq> v \<Longrightarrow> mean_val (fill_mean_var v da) ix = mean_val da ix"
  by (simp add: mean_val_def fill_mean_var_fields vals_fill_mean_var)

lemma fold_fill_mean_var_vals:
  "distinct vs \<Longrightarrow>
   vals (fold fill_mean_var vs da) ix = (if ix Variable \<in> set vs then fillna da ix else vals da ix)"
proof (induction vs arbitrary: da)
  case Nil
  then show ?case by simp
next
  case (Cons v vs)
  have v: "v \<notin> set vs" and d: "distinct vs" using Cons.prems by auto
  show ?case
  proof (cases "ix Variable = v")
    case True
    then show ?thesis using v Cons.IH[OF d, of "fill_mean_var v da"]
      by (simp add: fillna_def vals_fill_mean_var)
  next
    case False
    then show ?thesis using Cons.IH[OF d, of "fill_mean_var v da"]
      by (simp add: fillna_def mean_val_fill_other vals_fill_mean_var split: option.splits)
  qed
qed

lemma fold_fill_mean_var_fields:
  "dims (fold fill_mean_var vs da) = dims da"
  "basin_coord (fold fill_mean_var vs da) = basin_coord da"
  "time_coord (fold fill_mean_var vs da) = time_coord da"
  "variable_coord (fold fill_mean_var vs da) = variable_coord da"
  "attrs_units (fold fill_mean_var vs da) = attrs_units da"
  "data_array.more (fold fill_mean_var vs da) = data_array.more da"
  by (induction vs arbitrary: da) (simp_all add: fill_mean_var_fields)

lemma fill_mean_eq:
  assumes "Variable \<in> set (dims da)" and "Basin \<in> set (dims da)"
  shows "fill_mean da =
           Inr (da\<lparr>vals := (\<lambda>ix. if ix Variable < size_of da Variable then fillna da ix
                                  else vals da ix)\<rparr>)"
proof -
  let ?vs = "[0..<size_of da Variable]"
  have "fold fill_mean_var ?vs da =
          da\<lparr>vals := (\<lambda>ix. if ix Variable < size_of da Variable then fillna da ix
                              else vals da ix)\<rparr>"
    by (rule data_array.equality)
       (simp_all add: fold_fill_mean_var_fields fold_fill_mean_var_vals fun_eq_iff)
  then show ?thesis using assms by (simp add: fill_mean_def)
qed

lemma mean_filled_fields:
  "dims (mean_filled da) = dims da" "size_of (mean_filled da) d = size_of da d"
  by (simp_all add: mean_filled_def size_of_def split: dim.splits)

lemma vals_mean_filled:
  "vals (mean_filled da) ix =
     (if ix Variable < size_of da Variable then fillna da ix else vals da ix)"
  by (simp add: mean_filled_def)

lemma fillna_mean_filled:
  assumes "ix Variable < size_of da Variable"
  shows "fillna (mean_filled da) ix = fillna da ix"
proof (cases "fillna da ix")
  case (Some x)
  then show ?thesis using assms by (simp add: fillna_def[of "mean_filled da"] vals_mean_filled)
next
  case None
  then have m: "mean_val da ix = None" and "vals da ix = None"
    by (auto simp: fillna_def split: option.splits)
  have "mean_val (mean_filled da) ix = None"
    unfolding mean_val_def nanmean_None
  proof
    fix x assume "x \<in> set (map (\<lambda>b. vals (mean_filled da) (ix(Basin := b))) [0..<size_of (mean_filled da) Basin])"
    then obtain b where b: "b < size_of da Basin" and x: "x = vals (mean_filled da) (ix(Basin := b))"
      by (auto simp: mean_filled_fields)
    have "vals da (ix(Basin := b)) = None"
      using m b unfolding mean_val_def nanmean_None by simp
    then show "x = None"
      using x assms m by (simp add: vals_mean_filled fillna_def mean_val_basin_upd)
  qed
  then show ?thesis using None assms by (simp add: fillna_def[of "mean_filled da"] vals_mean_filled)
qed

lemma mean_filled_idem: "mean_filled (mean_filled da) = mean_filled da"
proof -
  have "vals (mean_filled (mean_filled da)) ix = vals (mean_filled da) ix" for ix
  proof (cases "ix Variable < size_of da Variable")
    case True
    then show ?thesis
      using fillna_mean_filled[of ix da] by (simp add: vals_mean_filled mean_filled_fields)
  next
    case False
    then show ?thesis by (simp add: vals_mean_filled mean_filled_fields)
  qed
  then have "vals (mean_filled (mean_filled da)) = vals (mean_filled da)" by (rule ext)
  then show ?thesis by (simp add: mean_filled_def)
qed


lemma positions_ex_attrs:
  "positions ex_attrs [Variable, Basin] =
     [(\<lambda>_. 0)(Basin := 0, Variable := 0), (\<lambda>_. 0)(Basin := 1, Variable := 0)]"
  by (simp add: ex_attrs_def size_of_def upt_rec)

text \<open>
  Claim C7. \<^verbatim>\<open>_fill_gaps_da\<close> fails with NotImplementedError exactly when the policy name
  is set, the series is present and the name is none of \<^verbatim>\<open>interpolate\<close>, \<^verbatim>\<open>mean\<close>,
  \<^verbatim>\<open>et_ssm_ignore\<close>; when the policy is unset or the series is absent it returns the
  series unchanged.
\<close>

theorem fill_gaps_da_not_implemented_iff:
  "(fill_gaps_da interp da fill_nan = Inl NotImplementedError \<longleftrightarrow>
      (\<exists>p d. fill_nan = Some p \<and> da = Some d \<and>
         p \<notin> {''interpolate'', ''mean'', ''et_ssm_ignore''}))
   \<and> (fill_nan = None \<or> da = None \<longrightarrow> fill_gaps_da interp da fill_nan = Inr da)"
proof -
  have run: "fill_gaps_da interp da fill_nan = Inl e \<longleftrightarrow>
               fst (fill_gaps_da_run interp da fill_nan) = Some e" for e
    by (simp add: fill_gaps_da_def split: prod.splits option.splits)
  have known: "fst (fill_gaps_da_run interp (Some d) (Some p)) \<noteq> Some NotImplementedError"
    if "p \<in> {''interpolate'', ''mean'', ''et_ssm_ignore''}" for p d
    using that fill_et_ssm_ignore_raises[of interp d] fill_interpolate_raises[of interp d]
      fill_mean_raises[of d]
    by (auto simp: fill_gaps_da_run_def split: sum.splits)
  have unknown: "fst (fill_gaps_da_run interp (Some d) (Some p)) = Some NotImplementedError"
    if "p \<notin> {''interpolate'', ''mean'', ''et_ssm_ignore''}" for p d
    using that by (simp add: fill_gaps_da_run_def)
  have absent: "fill_gaps_da interp da fill_nan = Inr da" if "fill_nan = None \<or> da = None"
    using that by (auto simp: fill_gaps_da_def fill_gaps_da_run_def split: option.splits)
  show ?thesis
  proof (intro conjI iffI impI)
    assume a: "fill_gaps_da interp da fill_nan = Inl NotImplementedError"
    then obtain p d where pd: "fill_nan = Some p" "da = Some d"
      using absent by (cases fill_nan; cases da) auto
    then have "p \<notin> {''interpolate'', ''mean'', ''et_ssm_ignore''}"
      using a known[of p d] unfolding run by blast
    then show "\<exists>p d. fill_nan = Some p \<and> da = Some d \<and>
         p \<notin> {''interpolate'', ''mean'', ''et_ssm_ignore''}"
      using pd by blast
  next
    assume "\<exists>p d. fill_nan = Some p \<and> da = Some d \<and>
         p \<notin> {''interpolate'', ''mean'', ''et_ssm_ignore''}"
    then show "fill_gaps_da interp da fill_nan = Inl NotImplementedError"
      unfolding run using unknown by blast
  next
    assume "fill_nan = None \<or> da = None"
    then show "fill_gaps_da interp da fill_nan = Inr da" by (rule absent)
  qed
qed

theorem fill_gaps_da_not_implemented_iff_witness:
  "fill_gaps_da (\<lambda>d. d) (Some ex_series) (Some ''bogus'') = Inl NotImplementedError
   \<and> fill_gaps_da (\<lambda>d. d) None (Some ''mean'') = Inr None
   \<and> fill_gaps_da (\<lambda>d. d) (Some ex_series) None = Inr (Some ex_series)"
  using fill_gaps_da_not_implemented_iff[of "\<lambda>d. d" "Some ex_series" "Some ''bogus''"]
        fill_gaps_da_not_implemented_iff[of "\<lambda>d. d" None "Some ''mean''"]
        fill_gaps_da_not_implemented_iff[of "\<lambda>d. d" "Some ex_series" None]
  by simp










text \<open>
  Claim C5. On a series with a variable axis and a basin axis the \<^verbatim>\<open>mean\<close> policy
  succeeds, applying it to its own result gives that result again, and when every
  position has a non-missing value in at least one basin, no cell of the result is
  missing.
\<close>

theorem mean_fill_idempotent:
  assumes "Variable \<in> set (dims da)" and "Basin \<in> set (dims da)"
  shows "\<exists>da'. fill_gaps_da interp (Some da) (Some ''mean'') = Inr (Some da')
           \<and> fill_gaps_da interp (Some da') (Some ''mean'') = Inr (Some da')
           \<and> ((\<forall>ix\<in>set (positions da (dims da)). \<exists>b<size_of da Basin.
                   vals da (ix(Basin := b)) \<noteq> None)
                \<longrightarrow> (\<forall>ix\<in>set (positions da (dims da)). vals da' ix \<noteq> None))"
proof -
  have one: "fill_mean da = Inr (mean_filled da)"
    using fill_mean_eq[OF assms] by (simp add: mean_filled_def)
  have "fill_mean (mean_filled da) = Inr (mean_filled (mean_filled da))"
    using fill_mean_eq[of "mean_filled da"] assms by (simp add: mean_filled_def[of "mean_filled da"] mean_filled_fields)
  then have two: "fill_mean (mean_filled da) = Inr (mean_filled da)" by (simp add: mean_filled_idem)
  have full: "vals (mean_filled da) ix \<noteq> None"
    if cover: "\<forall>ix\<in>set (positions da (dims da)). \<exists>b<size_of da Basin.
                   vals da (ix(Basin := b)) \<noteq> None"
      and ix: "ix \<in> set (positions da (dims da))" for ix
  proof -
    have v: "ix Variable < size_of da Variable" using positions_bound[OF ix assms(1)] .
    obtain b where b: "b < size_of da Basin" "vals da (ix(Basin := b)) \<noteq> None"
      using cover ix by blast
    then have "mean_val da ix \<noteq> None"
      unfolding mean_val_def nanmean_None by auto
    then show ?thesis using v by (simp add: vals_mean_filled fillna_def split: option.splits)
  qed
  show ?thesis
    using one two full by (auto simp: fill_gaps_da_mean)
qed

theorem mean_fill_idempotent_witness:
  "\<exists>da'. fill_gaps_da (\<lambda>d. d) (Some ex_attrs) (Some ''mean'') = Inr (Some da')
      \<and> fill_gaps_da (\<lambda>d. d) (Some da') (Some ''mean'') = Inr (Some da')
      \<and> vals da' ((\<lambda>_. 0)(Basin := 1, Variable := 0)) \<noteq> None"
proof -
  have v: "Variable \<in> set (dims ex_attrs)" and b: "Basin \<in> set (dims ex_attrs)"
    by (simp_all add: ex_attrs_def)
  have d: "dims ex_attrs = [Variable, Basin]" by (simp add: ex_attrs_def)
  have cover: "\<forall>ix\<in>set (positions ex_attrs (dims ex_attrs)). \<exists>b<size_of ex_attrs Basin.
                 vals ex_attrs (ix(Basin := b)) \<noteq> None"
    unfolding d positions_ex_attrs by (auto simp: ex_attrs_def size_of_def)
  from mean_fill_idempotent[OF v b, of "\<lambda>d. d"] cover
  obtain da' where r: "fill_gaps_da (\<lambda>d. d) (Some ex_attrs) (Some ''mean'') = Inr (Some da')"
      "fill_gaps_da (\<lambda>d. d) (Some da') (Some ''mean'') = Inr (Some da')"
      "\<forall>ix\<in>set (positions ex_attrs (dims ex_attrs)). vals da' ix \<noteq> None"
    by blast
  from r(3) have "vals da' ((\<lambda>_. 0)(Basin := 1, Variable := 0)) \<noteq> None"
    unfolding d positions_ex_attrs by simp
  with r show ?thesis by blast
qed

section \<open>Properties of the window index\<close>

lemma length_concat_entries:
  "length (concat (map (\<lambda>b. map (g b) offs) bs)) = length bs * length offs"
  by (induction bs) simp_all

lemma in_concat_entries:
  "(b, d) \<in> set (concat (map (\<lambda>b. map (\<lambda>f. (b, h f)) offs) bs))
     \<longleftrightarrow> b \<in> set bs \<and> (\<exists>g\<in>set offs. h g = d)"
proof (induction bs)
  case Nil
  then show ?case by simp
next
  case (Cons a bs)
  have "(b, d) \<in> set (map (\<lambda>f. (a, h f)) offs) \<longleftrightarrow> b = a \<and> (\<exists>g\<in>set offs. h g = d)"
    by (simp add: image_iff) blast
  then show ?case using Cons by (simp del: set_map) blast
qed


lemma basin_entries_in_range:
  "\<forall>f\<in>set fs. 0 \<le> f \<and> f < int (length dates) \<Longrightarrow>
     basin_entries basin dates fs = Inr (map (\<lambda>f. (basin, dates ! nat f)) fs)"
  by (induction fs) (simp_all add: np_getitem_def)

lemma set_window_offsets:
  "set (window_offsets w n rho) = {f. w \<le> f \<and> f < n \<and> f < n - rho + 1}"
  by (auto simp: window_offsets_def)

lemma extend_lookup_in_range:
  "0 \<le> w \<Longrightarrow>
     extend_lookup basins dates w rho lookup =
       Inr (lookup @ concat (map (\<lambda>b. map (\<lambda>f. (b, dates ! nat f))
              (window_offsets w (int (length dates)) rho)) basins))"
proof (induction basins arbitrary: lookup)
  case Nil
  then show ?case by simp
next
  case (Cons b basins)
  have "basin_entries b dates (window_offsets w (int (length dates)) rho) =
          Inr (map (\<lambda>f. (b, dates ! nat f)) (window_offsets w (int (length dates)) rho))"
    using Cons.prems by (intro basin_entries_in_range) (auto simp: set_window_offsets)
  then show ?case using Cons by simp
qed

lemma nat_window_offsets:
  assumes "0 \<le> w"
  shows "map nat (window_offsets w (int n) rho) =
           filter (\<lambda>f. w \<le> int f \<and> int f < int n - rho + 1) [0..<n]"
proof (rule sorted_distinct_set_unique)
  have inj: "inj_on nat (set (window_offsets w (int n) rho))"
    using assms by (auto simp: set_window_offsets inj_on_def)
  show "distinct (map nat (window_offsets w (int n) rho))"
    using inj by (simp add: distinct_map window_offsets_def)
  have "sorted (window_offsets w (int n) rho)"
    unfolding window_offsets_def by (rule sorted_wrt_filter) simp
  then show "sorted (map nat (window_offsets w (int n) rho))"
    by (simp add: sorted_map sorted_wrt_mono_rel[of _ "(\<le>)"])
  show "sorted (filter (\<lambda>f. w \<le> int f \<and> int f < int n - rho + 1) [0..<n])"
    by (rule sorted_wrt_filter) simp
  show "distinct (filter (\<lambda>f. w \<le> int f \<and> int f < int n - rho + 1) [0..<n])" by simp
  show "set (map nat (window_offsets w (int n) rho)) =
          set (filter (\<lambda>f. w \<le> int f \<and> int f < int n - rho + 1) [0..<n])"
  proof (intro set_eqI iffI)
    fix k assume "k \<in> set (map nat (window_offsets w (int n) rho))"
    then obtain f where "f \<in> set (window_offsets w (int n) rho)" "k = nat f" by auto
    then show "k \<in> set (filter (\<lambda>f. w \<le> int f \<and> int f < int n - rho + 1) [0..<n])"
      using assms by (auto simp: set_window_offsets)
  next
    fix k assume "k \<in> set (filter (\<lambda>f. w \<le> int f \<and> int f < int n - rho + 1) [0..<n])"
    then have "int k \<in> set (window_offsets w (int n) rho)" by (auto simp: set_window_offsets)
    then have "nat (int k) \<in> nat ` set (window_offsets w (int n) rho)" by (rule imageI)
    then show "k \<in> set (map nat (window_offsets w (int n) rho))" by simp
  qed
qed

lemma create_lookup_table_eq:
  assumes "0 \<le> w"
  shows "create_lookup_table basins dates w rho =
           Inr (zip (map int [0..<length basins * length (valid_offsets w (length dates) rho)])
                  (concat (map (\<lambda>b. map (\<lambda>f. (b, dates ! f))
                     (valid_offsets w (length dates) rho)) basins)))"
proof -
  let ?offs = "window_offsets w (int (length dates)) rho"
  have m: "map (\<lambda>f. (b, dates ! nat f)) ?offs =
           map (\<lambda>f. (b, dates ! f)) (valid_offsets w (length dates) rho)" for b :: string
    unfolding valid_offsets_def nat_window_offsets[OF assms, symmetric] by (simp add: comp_def)
  have len: "length (concat (map (\<lambda>b. map (\<lambda>f. (b, dates ! f))
                     (valid_offsets w (length dates) rho)) basins))
             = length basins * length (valid_offsets w (length dates) rho)"
    by (rule length_concat_entries)
  show ?thesis
    unfolding create_lookup_table_def extend_lookup_in_range[OF assms] m
    by (simp add: len)
qed


lemma set_valid_offsets:
  "set (valid_offsets w n rho) = {f. f < n \<and> w \<le> int f \<and> int f < int n - rho + 1}"
  by (auto simp: valid_offsets_def)

lemma length_valid_offsets:
  "length (valid_offsets w n rho) = card {f. f < n \<and> w \<le> int f \<and> int f < int n - rho + 1}"
proof -
  have "distinct (valid_offsets w n rho)" by (simp add: valid_offsets_def)
  then have "card (set (valid_offsets w n rho)) = length (valid_offsets w n rho)"
    by (rule distinct_card)
  then show ?thesis by (simp add: set_valid_offsets)
qed

lemma entry_in_table:
  assumes "distinct dates" and "f < length dates" and "b \<in> set basins"
  shows "(b, dates ! f) \<in> set (concat (map (\<lambda>b. map (\<lambda>f. (b, dates ! f))
             (valid_offsets w (length dates) rho)) basins))
         \<longleftrightarrow> w \<le> int f \<and> int f < int (length dates) - rho + 1"
proof -
  have "(b, dates ! f) \<in> set (concat (map (\<lambda>b. map (\<lambda>f. (b, dates ! f))
             (valid_offsets w (length dates) rho)) basins))
        \<longleftrightarrow> (\<exists>g\<in>set (valid_offsets w (length dates) rho). dates ! g = dates ! f)"
    using assms(3) by (simp only: in_concat_entries simp_thms)
  also have "\<dots> \<longleftrightarrow> f \<in> set (valid_offsets w (length dates) rho)"
  proof
    assume "\<exists>g\<in>set (valid_offsets w (length dates) rho). dates ! g = dates ! f"
    then obtain g where g: "g \<in> set (valid_offsets w (length dates) rho)" "dates ! g = dates ! f"
      by blast
    then have "g < length dates" by (simp add: set_valid_offsets)
    then have "g = f" using g(2) assms(1,2) by (simp add: nth_eq_iff_index_eq)
    then show "f \<in> set (valid_offsets w (length dates) rho)" using g(1) by simp
  qed blast
  also have "\<dots> \<longleftrightarrow> w \<le> int f \<and> int f < int (length dates) - rho + 1"
    using assms(2) by (simp add: set_valid_offsets)
  finally show ?thesis .
qed

lemma create_lookup_table_props:
  assumes w: "0 \<le> w" and d: "distinct dates"
  shows "\<exists>table. create_lookup_table basins dates w rho = Inr table
     \<and> (\<forall>b\<in>set basins. \<forall>f<length dates.
          ((b, dates ! f) \<in> snd ` set table \<longleftrightarrow>
             w \<le> int f \<and> int f < int (length dates) - rho + 1))
     \<and> length table =
          card ({..<length basins} \<times>
                {f. f < length dates \<and> w \<le> int f \<and> int f < int (length dates) - rho + 1})
     \<and> map fst table = map int [0..<length table]
     \<and> map snd table =
          concat (map (\<lambda>b. map (\<lambda>f. (b, dates ! f)) (valid_offsets w (length dates) rho)) basins)"
proof -
  define offs where "offs = valid_offsets w (length dates) rho"
  define entries where "entries = concat (map (\<lambda>b. map (\<lambda>f. (b, dates ! f)) offs) basins)"
  define ids where "ids = map int [0..<length basins * length offs]"
  define table where "table = zip ids entries"
  have len: "length entries = length basins * length offs"
    unfolding entries_def by (rule length_concat_entries)
  have lids: "length ids = length basins * length offs" by (simp add: ids_def)
  have lt: "length table = length basins * length offs" by (simp add: table_def len lids)
  have run: "create_lookup_table basins dates w rho = Inr table"
    unfolding table_def ids_def entries_def offs_def by (rule create_lookup_table_eq[OF w])
  have fst: "map fst table = ids" unfolding table_def by (rule map_fst_zip) (simp add: len lids)
  have snd: "map snd table = entries" unfolding table_def by (rule map_snd_zip) (simp add: len lids)
  have "set (map snd table) = set entries" by (simp only: snd)
  then have img: "snd ` set table = set entries" by (simp only: set_map)
  have mem: "(b, dates ! f) \<in> snd ` set table \<longleftrightarrow>
             w \<le> int f \<and> int f < int (length dates) - rho + 1"
    if "b \<in> set basins" "f < length dates" for b f
    unfolding img entries_def offs_def by (rule entry_in_table[OF d that(2) that(1)])
  have "card ({..<length basins} \<times>
                {f. f < length dates \<and> w \<le> int f \<and> int f < int (length dates) - rho + 1})
        = length basins * length offs"
    unfolding offs_def length_valid_offsets card_cartesian_product by simp
  with lt have cnt: "length table = card ({..<length basins} \<times>
                {f. f < length dates \<and> w \<le> int f \<and> int f < int (length dates) - rho + 1})"
    by (simp only:)
  have fst': "map fst table = map int [0..<length table]"
    unfolding fst lt by (simp add: ids_def)
  have snd': "map snd table =
          concat (map (\<lambda>b. map (\<lambda>f. (b, dates ! f)) (valid_offsets w (length dates) rho)) basins)"
    unfolding snd entries_def offs_def ..
  show ?thesis
    using run mem cnt fst' snd' by blast
qed

text \<open>
  Claim C1. With a warm-up that is not negative and time stamps that are pairwise
  distinct, \<^verbatim>\<open>_create_lookup_table\<close> succeeds, and for every basin \<open>b\<close> of the data set
  and every offset \<open>f\<close> of the time axis the table contains \<open>(b, t[f])\<close> exactly when
  \<open>warmup_length \<le> f\<close> and \<open>f < time_length - rho + 1\<close>. The number of samples is the size
  of the table, which is the number of pairs of a basin position and such an offset. The
  ids are the integers from 0 in order, and the entries come basin by basin in the order
  of the basins, each basin with its offsets ascending.
\<close>

theorem lookup_table_contents:
  assumes y: "self_y self = Some y"
    and w: "0 \<le> self_warmup_length self"
    and d: "distinct (time_coord y)"
  shows "\<exists>self'. BaseDataset_create_lookup_table self = Inr self'
     \<and> (\<forall>b\<in>set (sites_id (self_t_s_dict self)). \<forall>f<length (time_coord y).
          ((b, time_coord y ! f) \<in> snd ` set (self_lookup_table self') \<longleftrightarrow>
             self_warmup_length self \<le> int f
             \<and> int f < int (length (time_coord y)) - self_rho self + 1))
     \<and> self_num_samples self' = length (self_lookup_table self')
     \<and> self_num_samples self' =
          card ({..<length (sites_id (self_t_s_dict self))} \<times>
                {f. f < length (time_coord y) \<and> self_warmup_length self \<le> int f
                    \<and> int f < int (length (time_coord y)) - self_rho self + 1})
     \<and> map fst (self_lookup_table self') = map int [0..<self_num_samples self']
     \<and> map snd (self_lookup_table self') =
          concat (map (\<lambda>b. map (\<lambda>f. (b, time_coord y ! f))
             (valid_offsets (self_warmup_length self) (length (time_coord y)) (self_rho self)))
             (sites_id (self_t_s_dict self)))"
proof -
  from create_lookup_table_props[OF w d, of "sites_id (self_t_s_dict self)" "self_rho self"]
  obtain table where t:
    "create_lookup_table (sites_id (self_t_s_dict self)) (time_coord y)
       (self_warmup_length self) (self_rho self) = Inr table"
    "\<forall>b\<in>set (sites_id (self_t_s_dict self)). \<forall>f<length (time_coord y).
          ((b, time_coord y ! f) \<in> snd ` set table \<longleftrightarrow>
             self_warmup_length self \<le> int f
             \<and> int f < int (length (time_coord y)) - self_rho self + 1)"
    "length table =
          card ({..<length (sites_id (self_t_s_dict self))} \<times>
                {f. f < length (time_coord y) \<and> self_warmup_length self \<le> int f
                    \<and> int f < int (length (time_coord y)) - self_rho self + 1})"
    "map fst table = map int [0..<length table]"
    "map snd table =
          concat (map (\<lambda>b. map (\<lambda>f. (b, time_coord y ! f))
             (valid_offsets (self_warmup_length self) (length (time_coord y)) (self_rho self)))
             (sites_id (self_t_s_dict self)))"
    by blast
  define self' where "self' = self\<lparr>self_lookup_table := table, self_num_samples := length table\<rparr>"
  have run: "BaseDataset_create_lookup_table self = Inr self'"
    by (simp add: BaseDataset_create_lookup_table_def y bind_err_def t(1) self'_def)
  have f: "self_lookup_table self' = table" "self_num_samples self' = length table"
    by (simp_all add: self'_def)
  show ?thesis
    apply (rule exI[of _ self'])
    unfolding f
    using run t(2-5) by blast
qed

section \<open>Properties of the length of \<^verbatim>\<open>KuaiDataset\<close>\<close>

lemma pow_sq_le:
  fixes x :: real
  assumes "0 \<le> x" and "x ^ n \<le> u" and "u * u \<le> v"
  shows "x ^ (2 * n) \<le> v"
proof -
  have "0 \<le> x ^ n" using assms(1) by simp
  then have "x ^ n * x ^ n \<le> u * u" using assms(2) by (intro mult_mono) auto
  then show ?thesis using assms(3) by (simp add: mult_2 power_add)
qed

lemma pow_sq_ge:
  fixes x :: real
  assumes "0 \<le> l" and "l \<le> x ^ n" and "v \<le> l * l"
  shows "v \<le> x ^ (2 * n)"
proof -
  have "l * l \<le> x ^ n * x ^ n" using assms(1,2) by (intro mult_mono) auto
  then show ?thesis using assms(3) by (simp add: mult_2 power_add)
qed

lemma pow_mul_le:
  fixes x :: real
  assumes "0 \<le> x" and "x ^ m \<le> u" and "x ^ n \<le> v" and "u * v \<le> w"
  shows "x ^ (m + n) \<le> w"
proof -
  have "0 \<le> x ^ m" "0 \<le> x ^ n" using assms(1) by simp_all
  then have "x ^ m * x ^ n \<le> u * v" using assms(2,3) by (intro mult_mono) auto
  then show ?thesis using assms(4) by (simp add: power_add)
qed

lemma pow_mul_ge:
  fixes x :: real
  assumes "0 \<le> l" and "0 \<le> k" and "l \<le> x ^ m" and "k \<le> x ^ n" and "w \<le> l * k"
  shows "w \<le> x ^ (m + n)"
proof -
  have "l * k \<le> x ^ m * x ^ n" using assms(1-4) by (intro mult_mono) auto
  then show ?thesis using assms(5) by (simp add: power_add)
qed

lemma pow995_le_1: "(199/200::real) ^ 1 \<le> 0.995" by simp

lemma pow995_ge_1: "0.995 \<le> (199/200::real) ^ 1" by simp

lemma pow995_le_2: "(199/200::real) ^ 2 \<le> 0.990025"
  using pow_sq_le[OF _ pow995_le_1, of "0.990025"] by simp

lemma pow995_ge_2: "0.990025 \<le> (199/200::real) ^ 2"
  using pow_sq_ge[OF _ pow995_ge_1, of "0.990025"] by simp

lemma pow995_le_4: "(199/200::real) ^ 4 \<le> 0.980149500625"
  using pow_sq_le[OF _ pow995_le_2, of "0.980149500625"] by simp

lemma pow995_ge_4: "0.980149500625 \<le> (199/200::real) ^ 4"
  using pow_sq_ge[OF _ pow995_ge_2, of "0.980149500625"] by simp

lemma pow995_le_8: "(199/200::real) ^ 8 \<le> 0.96069304357544"
  using pow_sq_le[OF _ pow995_le_4, of "0.96069304357544"] by simp

lemma pow995_ge_8: "0.96069304357543 \<le> (199/200::real) ^ 8"
  using pow_sq_ge[OF _ pow995_ge_4, of "0.96069304357543"] by simp

lemma pow995_le_16: "(199/200::real) ^ 16 \<le> 0.92293112397425"
  using pow_sq_le[OF _ pow995_le_8, of "0.92293112397425"] by simp

lemma pow995_ge_16: "0.92293112397422 \<le> (199/200::real) ^ 16"
  using pow_sq_ge[OF _ pow995_ge_8, of "0.92293112397422"] by simp

lemma pow995_le_32: "(199/200::real) ^ 32 \<le> 0.85180185960038"
  using pow_sq_le[OF _ pow995_le_16, of "0.85180185960038"] by simp

lemma pow995_ge_32: "0.85180185960031 \<le> (199/200::real) ^ 32"
  using pow_sq_ge[OF _ pow995_ge_16, of "0.85180185960031"] by simp

lemma pow995_le_64: "(199/200::real) ^ 64 \<le> 0.72556640801867"
  using pow_sq_le[OF _ pow995_le_32, of "0.72556640801867"] by simp

lemma pow995_ge_64: "0.72556640801854 \<le> (199/200::real) ^ 64"
  using pow_sq_ge[OF _ pow995_ge_32, of "0.72556640801854"] by simp

lemma pow995_le_128: "(199/200::real) ^ 128 \<le> 0.52644661244512"
  using pow_sq_le[OF _ pow995_le_64, of "0.52644661244512"] by simp

lemma pow995_ge_128: "0.52644661244492 \<le> (199/200::real) ^ 128"
  using pow_sq_ge[OF _ pow995_ge_64, of "0.52644661244492"] by simp

lemma pow995_le_256: "(199/200::real) ^ 256 \<le> 0.27714603575495"
  using pow_sq_le[OF _ pow995_le_128, of "0.27714603575495"] by simp

lemma pow995_ge_256: "0.27714603575473 \<le> (199/200::real) ^ 256"
  using pow_sq_ge[OF _ pow995_ge_128, of "0.27714603575473"] by simp

lemma pow995_le_512: "(199/200::real) ^ 512 \<le> 0.07680992513469"
  using pow_sq_le[OF _ pow995_le_256, of "0.07680992513469"] by simp

lemma pow995_ge_512: "0.07680992513456 \<le> (199/200::real) ^ 512"
  using pow_sq_ge[OF _ pow995_ge_256, of "0.07680992513456"] by simp

lemma pow995_le_sum_768: "(199/200::real) ^ 768 \<le> 0.02128756625772"
  using pow_mul_le[OF _ pow995_le_512 pow995_le_256, of "0.02128756625772"] by simp

lemma pow995_le_sum_896: "(199/200::real) ^ 896 \<le> 0.01120676714358"
  using pow_mul_le[OF _ pow995_le_sum_768 pow995_le_128, of "0.01120676714358"] by simp

lemma pow995_le_sum_912: "(199/200::real) ^ 912 \<le> 0.01034307419595"
  using pow_mul_le[OF _ pow995_le_sum_896 pow995_le_16, of "0.01034307419595"] by simp

lemma pow995_le_sum_916: "(199/200::real) ^ 916 \<le> 0.01013775900809"
  using pow_mul_le[OF _ pow995_le_sum_912 pow995_le_4, of "0.01013775900809"] by simp

lemma pow995_le_sum_918: "(199/200::real) ^ 918 \<le> 0.01003663486199"
  using pow_mul_le[OF _ pow995_le_sum_916 pow995_le_2, of "0.01003663486199"] by simp

lemma pow995_le_sum_919: "(199/200::real) ^ 919 \<le> 0.00998645168769"
  using pow_mul_le[OF _ pow995_le_sum_918 pow995_le_1, of "0.00998645168769"] by simp

lemma pow995_ge_sum_768: "0.02128756625766 \<le> (199/200::real) ^ 768"
  using pow_mul_ge[OF _ _ pow995_ge_512 pow995_ge_256, of "0.02128756625766"] by simp

lemma pow995_ge_sum_896: "0.01120676714354 \<le> (199/200::real) ^ 896"
  using pow_mul_ge[OF _ _ pow995_ge_sum_768 pow995_ge_128, of "0.01120676714354"] by simp

lemma pow995_ge_sum_912: "0.0103430741959 \<le> (199/200::real) ^ 912"
  using pow_mul_ge[OF _ _ pow995_ge_sum_896 pow995_ge_16, of "0.0103430741959"] by simp

lemma pow995_ge_sum_916: "0.01013775900803 \<le> (199/200::real) ^ 916"
  using pow_mul_ge[OF _ _ pow995_ge_sum_912 pow995_ge_4, of "0.01013775900803"] by simp

lemma pow995_ge_sum_918: "0.01003663486192 \<le> (199/200::real) ^ 918"
  using pow_mul_ge[OF _ _ pow995_ge_sum_916 pow995_ge_2, of "0.01003663486192"] by simp

lemma pow_919: "(199/200::real) ^ 919 \<le> 1/100"
  using pow995_le_sum_919 by simp

lemma pow_918: "1/100 < (199/200::real) ^ 918"
  using pow995_ge_sum_918 by simp


lemma ceiling_ln_ratio: "\<lceil>ln (1/100) / ln (199/200 :: real)\<rceil> = 919"
proof -
  let ?a = "199/200 :: real"
  have neg: "ln ?a < 0" by simp
  have hi: "ln (?a ^ 919) \<le> ln (1/100)"
    using pow_919 by (subst ln_le_cancel_iff) simp_all
  have lo: "ln (1/100) < ln (?a ^ 918)"
    using pow_918 by (subst ln_less_cancel_iff) simp_all
  have hi': "919 * ln ?a \<le> ln (1/100)" using hi by (simp add: ln_realpow)
  have lo': "ln (1/100) < 918 * ln ?a" using lo by (simp add: ln_realpow)
  have "ln (1/100) / ln ?a \<le> 919"
    using hi' neg by (simp add: divide_le_eq)
  moreover have "918 < ln (1/100) / ln ?a"
    using lo' neg by (simp add: less_divide_eq)
  ultimately show ?thesis by (intro ceiling_unique) simp_all
qed

lemma shrink_batch_size_Some:
  "1 \<le> ngrid_nt \<Longrightarrow>
     \<exists>b. shrink_batch_size batch_size rho ngrid_nt = Some b \<and> b * rho < ngrid_nt"
proof (induction "nat \<bar>batch_size\<bar>" arbitrary: batch_size rule: less_induct)
  case less
  show ?case
  proof (cases "batch_size * rho \<ge> ngrid_nt")
    case False
    then show ?thesis by (subst shrink_batch_size.simps) simp
  next
    case True
    with less.prems have "batch_size \<noteq> 0" by auto
    then have "nat \<bar>py_int_div10 batch_size\<bar> < nat \<bar>batch_size\<bar>"
      by (auto simp: py_int_div10_def)
    from less.hyps[OF this less.prems] True show ?thesis
      by (subst shrink_batch_size.simps) simp
  qed
qed

text \<open>
  Claim C3. For \<open>ngrid = 100\<close>, \<open>nt = 1000\<close>, \<open>rho = 10\<close>, \<open>warmup_length = 0\<close> and
  \<open>batch_size = 50\<close> the shrink loop ends at once with the batch size 50, the number of
  iterations \<open>ceil(ln 0.01 / ln (1 - 50 * 10 / (100 * 1000)))\<close> is the positive integer
  919, and the length in training mode is \<open>919 * 50\<close>.
\<close>

theorem kuai_len_example:
  "shrink_batch_size 50 10 (int 100 * int 1000) = Some 50
   \<and> n_iter_ep (max 50 1) 10 100 1000 0 = Inr 919
   \<and> KuaiDataset_len_train 50 10 0 100 1000 = Some (Inr (919 * 50))"
proof -
  have s: "shrink_batch_size 50 10 (int 100 * int 1000) = Some 50"
    by (subst shrink_batch_size.simps) simp
  have n: "n_iter_ep (max 50 1) 10 100 1000 0 = Inr 919"
    using ceiling_ln_ratio by (simp add: n_iter_ep_def Let_def)
  show ?thesis using s n by (simp add: KuaiDataset_len_train_def bind_err_def Let_def)
qed

text \<open>
  Claim C10. When \<open>ngrid * nt\<close> is at least 1, the shrink loop of
  \<^verbatim>\<open>KuaiDataset.__len__\<close> terminates for every batch size and every \<open>rho\<close>, with a batch
  size \<open>b\<close> for which \<open>b * rho < ngrid * nt\<close>; the batch size \<open>max b 1\<close> that enters the
  computation of \<open>n_iter_ep\<close> is at least 1, and the length in training mode is computed
  from it.
\<close>

theorem shrink_loop_terminates:
  assumes "1 \<le> ngrid * nt"
  shows "\<exists>b. shrink_batch_size batch_size rho (int ngrid * int nt) = Some b
           \<and> b * rho < int ngrid * int nt \<and> 1 \<le> max b 1
           \<and> KuaiDataset_len_train batch_size rho warmup_length ngrid nt =
               Some (bind_err (n_iter_ep (max b 1) rho ngrid nt warmup_length)
                       (\<lambda>n. Inr (n * max b 1)))"
proof -
  have "1 \<le> int ngrid * int nt" using assms by (metis of_nat_1 of_nat_le_iff of_nat_mult)
  from shrink_batch_size_Some[OF this, of batch_size rho]
  obtain b where b: "shrink_batch_size batch_size rho (int ngrid * int nt) = Some b"
    "b * rho < int ngrid * int nt" by blast
  then show ?thesis by (simp add: KuaiDataset_len_train_def Let_def)
qed

theorem shrink_loop_terminates_witness:
  "\<exists>b. shrink_batch_size 5000 30 (int 3 * int 20) = Some b \<and> b * 30 < int 3 * int 20 \<and> 1 \<le> max b 1"
  using shrink_loop_terminates[of 3 20 5000 30 0] by auto

section \<open>Properties of the data set\<close>

lemma ex_y_fields:
  "time_coord ex_y = [0, ticks_per_day, 2 * ticks_per_day, 3 * ticks_per_day]"
  "basin_coord ex_y = [''b0'', ''b1'']"
  "variable_coord ex_y = [''streamflow'']"
  "dims ex_y = [Variable, Basin, Time]"
  by (simp_all add: ex_y_def)

lemma ex_x_fields:
  "time_coord ex_x = [0, ticks_per_day, 2 * ticks_per_day, 3 * ticks_per_day]"
  "basin_coord ex_x = [''b0'', ''b1'']"
  "variable_coord ex_x = [''prcp'']"
  "dims ex_x = [Variable, Basin, Time]"
  by (simp_all add: ex_x_def)

lemma ex_c_fields:
  "time_coord ex_c = []"
  "basin_coord ex_c = [''b0'', ''b1'']"
  "variable_coord ex_c = [''area'']"
  "dims ex_c = [Variable, Basin]"
  by (simp_all add: ex_c_def)

lemma ex_create_lookup_table:
  "create_lookup_table [''b0'', ''b1''] [0, ticks_per_day, 2 * ticks_per_day, 3 * ticks_per_day] 1 2
     = Inr ex_table"
  by (simp add: create_lookup_table_def window_offsets_def np_getitem_def ex_table_def
      upto_rec1 upt_rec numeral_2_eq_2 numeral_3_eq_3)

lemma ex_params_fields:
  "cfg_target_cols ex_params = Some [''streamflow'']"
  "cfg_relevant_cols ex_params = Some [''prcp'']"
  "cfg_constant_cols ex_params = Some [''area'']"
  "cfg_target_rm_nan ex_params = Some False"
  "cfg_relevant_rm_nan ex_params = Some False"
  "cfg_constant_rm_nan ex_params = Some False"
  "cfg_forecast_history ex_params = Some 2"
  "cfg_warmup_length ex_params = Some 1"
  "cfg_batch_size ex_params = Some 5"
  by (simp_all add: ex_params_def)

lemma ex_ext_fields:
  "wrap_t_s_dict ex_ext p l = ex_t_s_dict"
  "read_ts_xrdataset ex_ext s r cols = None"
  "read_attr_xrdataset ex_ext s cols = None"
  "scaler_hub ex_ext f g a p l = (Some ex_x, Some ex_y, Some ex_c)"
  by (simp_all add: ex_ext_def)

lemma length_ex_table: "length ex_table = 4"
  by (simp add: ex_table_def)

lemma ex_load_data_finish:
  "load_data_finish ex_ext ex_params lt ex_t_s_dict (Some ex_x, Some ex_y, Some ex_c)
     = Inr (ex_dataset lt)"
  by (simp add: load_data_finish_def kill_nan_def bind_err_def ex_params_fields
      BaseDataset_create_lookup_table_def ex_y_fields ex_t_s_dict_def ex_create_lookup_table
      ex_dataset_def length_ex_table)

lemma ex_init:
  "lt \<in> {''train'', ''valid'', ''test''} \<Longrightarrow>
   BaseDataset_init ex_ext ex_params lt =
     (Inr (ex_dataset lt),
      [Call_wrap_t_s_dict, Call_read_ts_xrdataset [''streamflow''],
       Call_read_ts_xrdataset [''prcp''], Call_read_attr_xrdataset [''area''], Call_ScalerHub])"
  unfolding BaseDataset_init_def load_data_def
  by (simp add: Let_def ex_load_data_finish ex_ext_fields ex_params_fields)


lemma create_lookup_table_fields:
  assumes "BaseDataset_create_lookup_table s = Inr s'"
  shows "self_num_samples s' = length (self_lookup_table s')"
    and "self_train_mode s' = self_train_mode s"
    and "self_t_s_dict s' = self_t_s_dict s"
  using assms
  by (auto simp: BaseDataset_create_lookup_table_def bind_err_def split: option.splits sum.splits)

lemma load_data_finish_fields:
  assumes "load_data_finish ext params loader_type tsd scaled = Inr s"
  shows "self_num_samples s = length (self_lookup_table s)"
    and "self_train_mode s = (loader_type = ''train'')"
    and "self_t_s_dict s = tsd"
proof -
  from assms obtain s0 where c: "BaseDataset_create_lookup_table s0 = Inr s"
    and s0: "self_train_mode s0 = (loader_type = ''train'')" "self_t_s_dict s0 = tsd"
    by (auto simp: load_data_finish_def bind_err_def split: prod.splits option.splits sum.splits)
  from create_lookup_table_fields[OF c] s0
  show "self_num_samples s = length (self_lookup_table s)"
    and "self_train_mode s = (loader_type = ''train'')"
    and "self_t_s_dict s = tsd"
    by simp_all
qed

lemma load_data_fields:
  assumes "load_data ext params loader_type = (Inr s, calls)"
  shows "self_num_samples s = length (self_lookup_table s)"
    and "self_train_mode s = (loader_type = ''train'')"
    and "self_t_s_dict s = wrap_t_s_dict ext params loader_type"
proof -
  from assms have "\<exists>scaled.
    load_data_finish ext params loader_type (wrap_t_s_dict ext params loader_type) scaled = Inr s"
    unfolding load_data_def Let_def
    by (simp split: option.splits del: split_paired_Ex) blast+
  then obtain scaled where
    "load_data_finish ext params loader_type (wrap_t_s_dict ext params loader_type) scaled = Inr s" ..
  from load_data_finish_fields[OF this]
  show "self_num_samples s = length (self_lookup_table s)"
    and "self_train_mode s = (loader_type = ''train'')"
    and "self_t_s_dict s = wrap_t_s_dict ext params loader_type"
    by simp_all
qed

lemma load_data_calls: "snd (load_data ext params loader_type) \<noteq> []"
  by (simp add: load_data_def Let_def split: option.splits)

text \<open>
  Claim C6. For every \<^verbatim>\<open>BasinFlowDataset\<close> that its constructor returns, the length is the
  size of the lookup table when the loader type is \<^verbatim>\<open>train\<close>, and otherwise the number of
  basins of \<^verbatim>\<open>t_s_dict\<close>, whatever the size of the table.
\<close>

theorem basin_flow_len_by_mode:
  assumes "BasinFlowDataset_init ext params loader_type = (Inr self, calls)"
  shows "BasinFlowDataset_len self =
           (if loader_type = ''train'' then length (self_lookup_table self)
            else length (sites_id (wrap_t_s_dict ext params loader_type)))"
proof -
  from assms have "load_data ext params loader_type = (Inr self, calls)"
    by (simp add: BasinFlowDataset_init_def BaseDataset_init_def split: if_splits)
  from load_data_fields[OF this] show ?thesis
    by (simp add: BasinFlowDataset_len_def)
qed

theorem basin_flow_len_by_mode_witness:
  "BasinFlowDataset_len (ex_dataset ''valid'') = 2
   \<and> length (self_lookup_table (ex_dataset ''valid'')) = 4
   \<and> BasinFlowDataset_len (ex_dataset ''train'') = 4"
proof -
  have v: "BasinFlowDataset_init ex_ext ex_params ''valid'' = (Inr (ex_dataset ''valid''),
      [Call_wrap_t_s_dict, Call_read_ts_xrdataset [''streamflow''],
       Call_read_ts_xrdataset [''prcp''], Call_read_attr_xrdataset [''area''], Call_ScalerHub])"
    unfolding BasinFlowDataset_init_def by (rule ex_init) simp
  have t: "BasinFlowDataset_init ex_ext ex_params ''train'' = (Inr (ex_dataset ''train''),
      [Call_wrap_t_s_dict, Call_read_ts_xrdataset [''streamflow''],
       Call_read_ts_xrdataset [''prcp''], Call_read_attr_xrdataset [''area''], Call_ScalerHub])"
    unfolding BasinFlowDataset_init_def by (rule ex_init) simp
  have l: "length (self_lookup_table (ex_dataset lt)) = 4" for lt
    by (simp add: ex_dataset_def length_ex_table)
  show ?thesis
    using basin_flow_len_by_mode[OF v] basin_flow_len_by_mode[OF t] l
    by (simp add: ex_ext_fields ex_t_s_dict_def)
qed

text \<open>
  Claim C8. With a loader type other than \<^verbatim>\<open>train\<close>, \<^verbatim>\<open>valid\<close> and \<^verbatim>\<open>test\<close> the
  constructor fails with ValueError and has made no call: neither to the data source nor
  to any function that is handed the data source. With one of the three loader types it
  does make calls.
\<close>

theorem init_rejects_loader_type:
  "(loader_type \<notin> {''train'', ''valid'', ''test''} \<longrightarrow>
      BaseDataset_init ext params loader_type = (Inl ValueError, []))
   \<and> (loader_type \<in> {''train'', ''valid'', ''test''} \<longrightarrow>
      snd (BaseDataset_init ext params loader_type) \<noteq> [])"
  using load_data_calls[of ext params loader_type] by (simp add: BaseDataset_init_def)

theorem init_rejects_loader_type_witness:
  "BaseDataset_init ex_ext ex_params ''bogus'' = (Inl ValueError, [])
   \<and> snd (BaseDataset_init ex_ext ex_params ''train'') \<noteq> []"
  using init_rejects_loader_type[of "''bogus''" ex_ext ex_params] init_rejects_loader_type[of "''train''" ex_ext ex_params] by simp

lemma extends_iff: "extends h h' \<longleftrightarrow> (\<exists>new. h' = h @ new \<and> list_all is_plain new)"
proof
  assume "extends h h'"
  then have "h' = h @ drop (length h) h' \<and> list_all is_plain (drop (length h) h')"
    unfolding extends_def by (metis append_take_drop_id)
  then show "\<exists>new. h' = h @ new \<and> list_all is_plain new" by blast
next
  assume "\<exists>new. h' = h @ new \<and> list_all is_plain new"
  then show "extends h h'" by (auto simp: extends_def)
qed

lemma extends_refl: "extends h h"
  by (simp add: extends_def)

lemma extends_trans: "extends h h1 \<Longrightarrow> extends h1 h2 \<Longrightarrow> extends h h2"
  unfolding extends_iff by auto

lemma alloc_extends: "alloc h dt a = (h1, v) \<Longrightarrow> extends h h1"
  unfolding extends_iff by (auto simp: alloc_def is_plain_def)

lemma alloc_read: "alloc h dt a = (h1, v) \<Longrightarrow> v_addr v < length h1 \<and> read_view h1 v = Some a"
  by (auto simp: alloc_def read_view_def)

lemma extends_labelled_at: "extends h h' \<Longrightarrow> labelled_at h' p = labelled_at h p"
  unfolding extends_iff
  by (auto simp: labelled_at_def nth_append list_all_length is_plain_def split: contents.splits)

lemma extends_length: "extends h h' \<Longrightarrow> length h \<le> length h'"
  unfolding extends_iff by auto

lemma extends_take: "extends h h' \<Longrightarrow> take (length h) h' = h"
  by (simp add: extends_def)

lemma extends_read_view: "extends h h' \<Longrightarrow> v_addr v < length h \<Longrightarrow> read_view h' v = read_view h v"
  unfolding extends_iff by (auto simp: read_view_def nth_append)

lemma attach_static_extends: "extends h (snd (attach_static h ref basin n xv))"
  by (auto simp: attach_static_def Let_def extends_refl
      split: option.splits sum.splits prod.splits
      dest!: alloc_extends intro: extends_trans)

lemma alloc_extends_fst: "extends h (fst (alloc h dt a))"
  using alloc_extends[of h dt a] by (cases "alloc h dt a") simp

lemma to_float_extends: "extends h (fst (to_float h v))"
  by (auto simp: to_float_def extends_refl alloc_extends_fst split: option.splits)

lemma getitem_store_extends:
  "fst (snd (getitem_store u obj h item)) = obj \<and> extends h (snd (snd (getitem_store u obj h item)))"
proof -
  have a: "extends h h1" if "attach_static h ref basin n xv = (r, h1)" for ref basin n xv r h1
    using attach_static_extends[of h ref basin n xv] that by simp
  have f: "extends h1 h2" if "to_float h1 v = (h2, t)" for h1 v h2 t
    using to_float_extends[of h1 v] that by simp
  show ?thesis
    by (auto simp: getitem_store_def Let_def extends_refl
        split: option.splits sum.splits prod.splits
        dest!: a f intro: extends_trans)
qed

lemma extends_stored_dataset: "extends h h' \<Longrightarrow> stored_dataset h' obj = stored_dataset h obj"
  by (simp add: stored_dataset_def attr_array_def extends_labelled_at split: option.splits)

text \<open>
  Claim C9. For every sample id, valid or not, \<^verbatim>\<open>__getitem__\<close> leaves the object and
  everything that was in the store as it was: the store after the call is the store
  before it, followed by the arrays that the call has allocated. So the stored arrays
  \<open>x\<close>, \<open>y\<close>, \<open>c\<close> and the lookup table are unchanged, and the data set that the object
  stands for after the call is the one before it.
\<close>

theorem getitem_store_keeps_stored:
  "case BaseDataset_getitem_store obj h item of
     (r, obj', h') \<Rightarrow>
        obj' = obj \<and> take (length h) h' = h \<and> stored_dataset h' obj' = stored_dataset h obj"
  using getitem_store_extends[of 1 obj h item]
  by (auto simp: BaseDataset_getitem_store_def extends_take extends_stored_dataset
      split: prod.splits)

lemma sel_view_Inl:
  "sel_view h ref basin a b = Inl e \<longleftrightarrow>
     (case attr_array h ref of None \<Rightarrow> e = AttributeError
      | Some da \<Rightarrow> sel_basin_time da basin a b = Inl e)"
  by (auto simp: sel_view_def attr_array_def split: option.splits sum.splits)

lemma read_view_selected:
  "labelled_at h p = Some da \<Longrightarrow>
     read_view h \<lparr>v_addr = p, v_sel = Selected basin ts tr\<rparr>
       = (case sel_basin da basin ts tr of Inl _ \<Rightarrow> None | Inr a \<Rightarrow> Some a)"
  by (auto simp: labelled_at_def read_view_def split: if_splits contents.splits)

lemma sel_view_Inr:
  assumes "sel_view h ref basin a b = Inr v"
  shows "v_addr v < length h \<and>
         (\<exists>da arr. attr_array h ref = Some da \<and> sel_basin_time da basin a b = Inr arr
                    \<and> read_view h v = Some arr)"
proof -
  from assms obtain p da arr where
    p: "ref = Some p" "labelled_at h p = Some da" "sel_basin_time da basin a b = Inr arr"
      "v = \<lparr>v_addr = p, v_sel = Selected basin (Some (time_slice da a b)) True\<rparr>"
    by (auto simp: sel_view_def split: option.splits sum.splits)
  have "p < length h" using p(2) by (auto simp: labelled_at_def split: if_splits)
  moreover have "read_view h v = Some arr"
    using p(3) unfolding p(4) read_view_selected[OF p(2)]
    by (auto simp: sel_basin_time_def split: if_splits)
  ultimately show ?thesis using p by (simp add: attr_array_def)
qed

lemma attach_static_value:
  assumes "read_view h xv = Some x" and "v_addr xv < length h"
    and "attach_static h ref basin n xv = (r, h1)"
  shows "map_sum id (read_view h1) r = map_sum id Some (static_part (attr_array h ref) basin n x)
         \<and> (\<forall>v. r = Inr v \<longrightarrow> v_addr v < length h1)"
proof -
  have rd: "read_view h' xv = Some x" if "alloc h dt a = (h', v)" for h' dt a v
    using extends_read_view[OF alloc_extends[OF that] assms(2)] assms(1) by simp
  show ?thesis
    using assms
    by (auto simp: attach_static_def static_part_def attr_array_def Let_def bind_err_def rd
        split: option.splits sum.splits prod.splits if_splits
        dest: alloc_read)
qed

lemma to_float_value:
  assumes "read_view h v = Some a" and "v_addr v < length h" and "to_float h v = (h', t)"
  shows "read_view h' t = Some a \<and> v_addr t < length h'"
  using assms by (auto simp: to_float_def split: if_splits dest: alloc_read)


lemma getitem_sample_static:
  "getitem_sample u self item =
     (case map_of (self_lookup_table self) item of
        None \<Rightarrow> Inl KeyError
      | Some (basin, time) \<Rightarrow>
         (case self_x self of
            None \<Rightarrow> Inl AttributeError
          | Some xa \<Rightarrow>
             bind_err (sel_basin_time xa basin (time - self_warmup_length self * u)
                         (time + (self_rho self - 1) * ticks_per_day)) (\<lambda>x.
             bind_err (static_part (self_c self) basin (self_rho self) x) (\<lambda>x.
             (case self_y self of
                None \<Rightarrow> Inl AttributeError
              | Some ya \<Rightarrow>
                 bind_err (sel_basin_time ya basin time (time + (self_rho self - 1) * ticks_per_day))
                   (\<lambda>y. Inr (x, y)))))))"
  by (simp add: getitem_sample_def static_part_def Let_def split: option.splits prod.splits)

lemma stored_dataset_fields:
  "self_lookup_table (stored_dataset h obj) = obj_lookup_table obj"
  "self_rho (stored_dataset h obj) = obj_rho obj"
  "self_warmup_length (stored_dataset h obj) = obj_warmup_length obj"
  "self_x (stored_dataset h obj) = attr_array h (obj_x obj)"
  "self_y (stored_dataset h obj) = attr_array h (obj_y obj)"
  "self_c (stored_dataset h obj) = attr_array h (obj_c obj)"
  by (simp_all add: stored_dataset_def)

lemma extends_attr_array: "extends h h' \<Longrightarrow> attr_array h' ref = attr_array h ref"
  by (simp add: attr_array_def extends_labelled_at split: option.splits)

lemma getitem_store_sample:
  assumes "getitem_store u obj h item = (r, obj', h')"
  shows "map_sum id (\<lambda>(xt, yt). (read_view h' xt, read_view h' yt)) r
           = map_sum id (\<lambda>(x, y). (Some x, Some y)) (getitem_sample u (stored_dataset h obj) item)"
proof (cases "map_of (obj_lookup_table obj) item")
  case None
  then show ?thesis using assms
    by (auto simp: getitem_store_def getitem_sample_static stored_dataset_fields)
next
  case (Some bt)
  obtain basin time where bt: "bt = (basin, time)" by (cases bt)
  define a where "a = time - obj_warmup_length obj * u"
  define b where "b = time + (obj_rho obj - 1) * ticks_per_day"
  define n where "n = obj_rho obj"
  note look = Some[unfolded bt]
  have sample: "getitem_sample u (stored_dataset h obj) item =
     (case attr_array h (obj_x obj) of
            None \<Rightarrow> Inl AttributeError
          | Some xa \<Rightarrow>
             bind_err (sel_basin_time xa basin a b) (\<lambda>x.
             bind_err (static_part (attr_array h (obj_c obj)) basin n x) (\<lambda>x.
             (case attr_array h (obj_y obj) of
                None \<Rightarrow> Inl AttributeError
              | Some ya \<Rightarrow> bind_err (sel_basin_time ya basin time b) (\<lambda>y. Inr (x, y))))))"
    unfolding a_def b_def n_def getitem_sample_static stored_dataset_fields
    by (simp add: look)
  show ?thesis
  proof (cases "sel_view h (obj_x obj) basin a b")
    case (Inl e)
    then have "r = Inl e" using assms look
      by (simp add: getitem_store_def Let_def a_def b_def)
    moreover have "getitem_sample u (stored_dataset h obj) item = Inl e"
      using Inl unfolding sel_view_Inl sample
      by (auto simp: bind_err_def split: option.splits)
    ultimately show ?thesis by simp
  next
    case (Inr xv)
    from sel_view_Inr[OF Inr] obtain xa x where
      xv: "v_addr xv < length h" "attr_array h (obj_x obj) = Some xa"
        "sel_basin_time xa basin a b = Inr x" "read_view h xv = Some x"
      by blast
    obtain rc h1 where at: "attach_static h (obj_c obj) basin n xv = (rc, h1)"
      by (cases "attach_static h (obj_c obj) basin n xv")
    have e1: "extends h h1" using attach_static_extends[of h "obj_c obj" basin n xv] at by simp
    from attach_static_value[OF xv(4) xv(1) at]
    have rc: "map_sum id (read_view h1) rc
                = map_sum id Some (static_part (attr_array h (obj_c obj)) basin n x)"
      and rcv: "\<forall>v. rc = Inr v \<longrightarrow> v_addr v < length h1"
      by simp_all
    show ?thesis
    proof (cases rc)
      case (Inl e)
      then have "r = Inl e" using assms look Inr at
        by (simp add: getitem_store_def Let_def a_def b_def n_def)
      moreover have "static_part (attr_array h (obj_c obj)) basin n x = Inl e"
        using rc Inl by (cases "static_part (attr_array h (obj_c obj)) basin n x") simp_all
      then have "getitem_sample u (stored_dataset h obj) item = Inl e"
        unfolding sample by (simp add: xv bind_err_def)
      ultimately show ?thesis by simp
    next
      case xv1: (Inr xv1)
      then obtain x1 where
        x1: "static_part (attr_array h (obj_c obj)) basin n x = Inr x1" "read_view h1 xv1 = Some x1"
        using rc by (cases "static_part (attr_array h (obj_c obj)) basin n x") auto
      have xv1b: "v_addr xv1 < length h1" using rcv xv1 by simp
      have sample1: "getitem_sample u (stored_dataset h obj) item =
             (case attr_array h1 (obj_y obj) of
                None \<Rightarrow> Inl AttributeError
              | Some ya \<Rightarrow> bind_err (sel_basin_time ya basin time b) (\<lambda>y. Inr (x1, y)))"
        unfolding sample by (simp add: xv x1 bind_err_def extends_attr_array[OF e1])
      show ?thesis
      proof (cases "sel_view h1 (obj_y obj) basin time b")
        case (Inl e)
        then have "r = Inl e" using assms look Inr at xv1
          by (simp add: getitem_store_def Let_def a_def b_def n_def)
        moreover have "getitem_sample u (stored_dataset h obj) item = Inl e"
          using Inl unfolding sel_view_Inl sample1
          by (auto simp: bind_err_def split: option.splits)
        ultimately show ?thesis by simp
      next
        case yv: (Inr yv)
        from sel_view_Inr[OF yv] obtain ya y where
          y: "v_addr yv < length h1" "attr_array h1 (obj_y obj) = Some ya"
            "sel_basin_time ya basin time b = Inr y" "read_view h1 yv = Some y"
          by blast
        obtain h2 xt where fx: "to_float h1 xv1 = (h2, xt)" by (cases "to_float h1 xv1")
        obtain h3 yt where fy: "to_float h2 yv = (h3, yt)" by (cases "to_float h2 yv")
        have e2: "extends h1 h2" using to_float_extends[of h1 xv1] fx by simp
        have e3: "extends h2 h3" using to_float_extends[of h2 yv] fy by simp
        have xt: "read_view h2 xt = Some x1" "v_addr xt < length h2"
          using to_float_value[OF x1(2) xv1b fx] by simp_all
        have y2: "read_view h2 yv = Some y" "v_addr yv < length h2"
          using extends_read_view[OF e2 y(1)] y(4) y(1) extends_length[OF e2] by simp_all
        have yt: "read_view h3 yt = Some y"
          using to_float_value[OF y2 fy] by simp
        have xt3: "read_view h3 xt = Some x1"
          using extends_read_view[OF e3 xt(2)] xt(1) by simp
        have "r = Inr (xt, yt)" "h' = h3" using assms look Inr at xv1 yv fx fy
          by (simp_all add: getitem_store_def Let_def a_def b_def n_def)
        moreover have "getitem_sample u (stored_dataset h obj) item = Inr (x1, y)"
          unfolding sample1 by (simp add: y bind_err_def)
        ultimately show ?thesis using xt3 yt by simp
      qed
    qed
  qed
qed

lemma ex_slice_x:
  "time_slice ex_x (ticks_per_day - 1) (2 * ticks_per_day) = [1, 2]"
  "time_slice ex_x 0 (2 * ticks_per_day) = [0, 1, 2]"
  by (simp_all add: time_slice_def ex_x_fields ticks_per_day_def upt_rec numeral_2_eq_2 numeral_3_eq_3)

lemma ex_slice_y:
  "time_slice ex_y ticks_per_day (2 * ticks_per_day) = [1, 2]"
  by (simp_all add: time_slice_def ex_y_fields ticks_per_day_def upt_rec numeral_2_eq_2 numeral_3_eq_3)

lemma ex_sel_x:
  "sel_basin ex_x ''b0'' (Some [Suc 0, 2]) True = Inr (Arr2 [[Some 1], [Some 2]])"
  "sel_basin ex_x ''b0'' (Some [0, Suc 0, 2]) True = Inr (Arr2 [[Some 0], [Some 1], [Some 2]])"
  by (simp_all add: sel_basin_def ex_x_fields axis_positions_def size_of_def Let_def)
     (simp_all add: ex_x_def)

lemma ex_sel_y:
  "sel_basin ex_y ''b0'' (Some [Suc 0, 2]) True = Inr (Arr2 [[Some 101], [Some 102]])"
  by (simp_all add: sel_basin_def ex_y_fields axis_positions_def size_of_def Let_def)
     (simp_all add: ex_y_def)

lemma ex_sel_c:
  "sel_basin ex_c ''b0'' None False = Inr (Arr1 [Some 4])"
  by (simp_all add: sel_basin_def ex_c_fields axis_positions_def size_of_def Let_def)
     (simp_all add: ex_c_def)

lemma ex_shape_c: "last (shape ex_c) = 2"
  by (simp add: shape_def ex_c_fields size_of_def)

lemma ex_tile: "np_tile (Arr1 [Some 4]) 2 = Inr [[Some 4], [Some 4]]"
  by (simp add: np_tile_def numeral_2_eq_2)

lemma ex_concat:
  "np_concatenate (Arr2 [[Some 1], [Some 2]]) [[Some 4], [Some 4]] =
     Inr (Arr2 [[Some 1, Some 4], [Some 2, Some 4]])"
  "np_concatenate (Arr2 [[Some 0], [Some 1], [Some 2]]) [[Some 4], [Some 4]] = Inl ValueError"
  by (simp_all add: np_concatenate_def)

lemma ex_stored_dataset: "stored_dataset ex_store (ex_object lt) = ex_dataset lt"
  by (simp add: stored_dataset_def ex_store_def ex_object_def ex_dataset_def attr_array_def
      labelled_at_def)

lemma ex_getitem_sample:
  "getitem_sample 1 (ex_dataset ''train'') 0 =
     Inr (Arr2 [[Some 1, Some 4], [Some 2, Some 4]], Arr2 [[Some 101], [Some 102]])"
proof -
  have tbl: "map_of (self_lookup_table (ex_dataset ''train'')) 0 = Some (''b0'', ticks_per_day)"
    by (simp add: ex_dataset_def ex_table_def)
  have f: "self_x (ex_dataset ''train'') = Some ex_x" "self_y (ex_dataset ''train'') = Some ex_y"
    "self_c (ex_dataset ''train'') = Some ex_c" "self_rho (ex_dataset ''train'') = 2"
    "self_warmup_length (ex_dataset ''train'') = 1"
    by (simp_all add: ex_dataset_def)
  show ?thesis
    by (simp add: getitem_sample_def tbl f Let_def sel_basin_time_def ex_x_fields ex_y_fields
        ex_c_fields ex_slice_x ex_slice_y ex_sel_x ex_sel_y ex_sel_c ex_shape_c bind_err_def
        ex_tile ex_concat)
qed

text \<open>
  On the example store, sample 0 reads back as the two windows of the value model. The
  returned input is a new array, at address 5 after the tiled attributes and the
  concatenation; the returned target is a view of the stored \<open>y\<close> itself, which is
  \<^verbatim>\<open>float32\<close> already.
\<close>

theorem getitem_store_keeps_stored_witness:
  "case BaseDataset_getitem_store (ex_object ''train'') ex_store 0 of
     (r, obj', h') \<Rightarrow>
        obj' = ex_object ''train'' \<and> take 3 h' = ex_store
        \<and> stored_dataset h' obj' = ex_dataset ''train''
        \<and> map_sum id (\<lambda>(xt, yt). (read_view h' xt, read_view h' yt)) r =
            Inr (Some (Arr2 [[Some 1, Some 4], [Some 2, Some 4]]),
                 Some (Arr2 [[Some 101], [Some 102]]))"
proof -
  obtain r obj' h' where
    g: "getitem_store 1 (ex_object ''train'') ex_store 0 = (r, obj', h')"
    by (cases "getitem_store 1 (ex_object ''train'') ex_store 0")
  have l: "length ex_store = 3" by (simp add: ex_store_def)
  show ?thesis
    using getitem_store_keeps_stored[of "ex_object ''train''" ex_store 0]
      getitem_store_sample[OF g] g
    by (auto simp: BaseDataset_getitem_store_def l ex_stored_dataset ex_getitem_sample)
qed

lemma ex_getitem_store:
  "BaseDataset_getitem_store (ex_object ''train'') ex_store 0 =
     (Inr (\<lparr>v_addr = 5, v_sel = Whole\<rparr>,
           \<lparr>v_addr = 1, v_sel = Selected ''b0'' (Some [1, 2]) True\<rparr>),
      ex_object ''train'',
      ex_store @ [(Float64, Plain (Arr2 [[Some 4], [Some 4]])),
                  (Float64, Plain (Arr2 [[Some 1, Some 4], [Some 2, Some 4]])),
                  (Float32, Plain (Arr2 [[Some 1, Some 4], [Some 2, Some 4]]))])"
proof -
  have tbl: "map_of (obj_lookup_table (ex_object ''train'')) 0 = Some (''b0'', ticks_per_day)"
    by (simp add: ex_object_def ex_table_def)
  have f: "obj_x (ex_object ''train'') = Some 0" "obj_y (ex_object ''train'') = Some (Suc 0)"
    "obj_c (ex_object ''train'') = Some 2" "obj_rho (ex_object ''train'') = 2"
    "obj_warmup_length (ex_object ''train'') = 1"
    by (simp_all add: ex_object_def)
  have la: "labelled_at (ex_store @ new) 0 = Some ex_x"
    "labelled_at (ex_store @ new) (Suc 0) = Some ex_y"
    "labelled_at (ex_store @ new) 2 = Some ex_c" for new
    by (simp_all add: labelled_at_def ex_store_def)
  have la0: "labelled_at ex_store 0 = Some ex_x"
    "labelled_at ex_store (Suc 0) = Some ex_y"
    "labelled_at ex_store 2 = Some ex_c"
    using la[of "[]"] by simp_all
  have xv: "sel_view ex_store (Some 0) ''b0'' (ticks_per_day - 1) (2 * ticks_per_day)
        = Inr \<lparr>v_addr = 0, v_sel = Selected ''b0'' (Some [Suc 0, 2]) True\<rparr>"
    by (simp add: sel_view_def la0 sel_basin_time_def ex_x_fields ex_slice_x ex_sel_x)
  have dt: "dtype_at ex_store 2 = Some Float64" "dtype_at (ex_store @ new) 0 = Some Float64"
      "dtype_at (ex_store @ new) (Suc 0) = Some Float32"
      "dtype_at (ex_store @ [c]) 3 = Some (fst c)"
      "dtype_at (ex_store @ [c, d]) 4 = Some (fst d)" for new c d
    by (simp_all add: dtype_at_def ex_store_def)
  have len: "length ex_store = 3" by (simp add: ex_store_def)
  have rx: "read_view (ex_store @ new) \<lparr>v_addr = 0, v_sel = Selected ''b0'' (Some [Suc 0, 2]) True\<rparr>
       = Some (Arr2 [[Some 1], [Some 2]])" for new
    by (simp add: read_view_def ex_store_def ex_sel_x)
  have at: "attach_static ex_store (Some 2) ''b0'' 2
              \<lparr>v_addr = 0, v_sel = Selected ''b0'' (Some [Suc 0, 2]) True\<rparr>
        = (Inr \<lparr>v_addr = 4, v_sel = Whole\<rparr>,
           ex_store @ [(Float64, Plain (Arr2 [[Some 4], [Some 4]])),
                  (Float64, Plain (Arr2 [[Some 1, Some 4], [Some 2, Some 4]]))])"
    by (simp add: attach_static_def la0 ex_c_fields ex_shape_c ex_sel_c ex_tile alloc_def
        Let_def rx ex_concat dt result_type_def len)
  have yv: "sel_view (ex_store @ new) (Some (Suc 0)) ''b0'' ticks_per_day (2 * ticks_per_day)
        = Inr \<lparr>v_addr = Suc 0, v_sel = Selected ''b0'' (Some [Suc 0, 2]) True\<rparr>" for new
    by (simp add: sel_view_def la sel_basin_time_def ex_y_fields ex_slice_y ex_sel_y)
  have fx: "to_float (ex_store @ [c, (Float64, Plain a)]) \<lparr>v_addr = 4, v_sel = Whole\<rparr>
        = (ex_store @ [c, (Float64, Plain a), (Float32, Plain a)], \<lparr>v_addr = 5, v_sel = Whole\<rparr>)"
    for c a
    by (simp add: to_float_def dt read_view_def len alloc_def nth_append)
  have fy: "to_float (ex_store @ new) \<lparr>v_addr = Suc 0, v_sel = Selected ''b0'' (Some [Suc 0, 2]) True\<rparr>
        = (ex_store @ new, \<lparr>v_addr = Suc 0, v_sel = Selected ''b0'' (Some [Suc 0, 2]) True\<rparr>)"
    for new
    by (simp add: to_float_def dt)
  show ?thesis
    unfolding BaseDataset_getitem_store_def getitem_store_def
    by (simp add: tbl f Let_def xv at yv fx fy)
qed

text \<open>
  Claim C2, at an input where it fails. The example data set has static attributes, a
  warm-up of one day and a horizon of two days, so the claimed input window has
  \<open>warmup_length + rho = 3\<close> rows and \<open>1 + 1 = 2\<close> columns. Sample 0 is basin \<^verbatim>\<open>b0\<close> at the
  second day. The time slice starts one tick, not one day, before the anchor, and the
  attributes are tiled \<open>rho\<close> times: the input window has 2 rows. Were the unit-less
  \<^verbatim>\<open>np.timedelta64(warmup_length)\<close> read in days, the slice would have 3 rows and
  \<^verbatim>\<open>np.concatenate\<close> would raise ValueError on the 2 rows of attributes.
\<close>

theorem getitem_window_rows_at_warmup:
  "fst (BaseDataset_getitem (ex_dataset ''train'') 0) =
     Inr (Arr2 [[Some 1, Some 4], [Some 2, Some 4]], Arr2 [[Some 101], [Some 102]])
   \<and> shape2 (Arr2 [[Some 1, Some 4], [Some 2, Some 4]]) = Some (2, 2)
   \<and> (nat (self_warmup_length (ex_dataset ''train'') + self_rho (ex_dataset ''train'')),
       size_of ex_x Variable + size_of ex_c Variable) = (3, 2)
   \<and> fst (BaseDataset_getitem_with ticks_per_day (ex_dataset ''train'') 0) = Inl ValueError"
proof -
  have tbl: "map_of (self_lookup_table (ex_dataset ''train'')) 0 = Some (''b0'', ticks_per_day)"
    by (simp add: ex_dataset_def ex_table_def)
  have f: "self_x (ex_dataset ''train'') = Some ex_x" "self_y (ex_dataset ''train'') = Some ex_y"
    "self_c (ex_dataset ''train'') = Some ex_c" "self_rho (ex_dataset ''train'') = 2"
    "self_warmup_length (ex_dataset ''train'') = 1"
    by (simp_all add: ex_dataset_def)
  have a: "getitem_sample 1 (ex_dataset ''train'') 0 =
     Inr (Arr2 [[Some 1, Some 4], [Some 2, Some 4]], Arr2 [[Some 101], [Some 102]])"
    by (simp add: getitem_sample_def tbl f Let_def sel_basin_time_def ex_x_fields ex_y_fields
        ex_c_fields ex_slice_x ex_slice_y ex_sel_x ex_sel_y ex_sel_c ex_shape_c bind_err_def
        ex_tile ex_concat)
  have b: "getitem_sample ticks_per_day (ex_dataset ''train'') 0 = Inl ValueError"
    by (simp add: getitem_sample_def tbl f Let_def sel_basin_time_def ex_x_fields ex_y_fields
        ex_c_fields ex_slice_x ex_slice_y ex_sel_x ex_sel_y ex_sel_c ex_shape_c bind_err_def
        ex_tile ex_concat)
  show ?thesis
    using a b by (simp add: BaseDataset_getitem_def BaseDataset_getitem_with_def shape2_def f
        size_of_def ex_x_fields ex_c_fields)
qed


lemma ex_valid_offsets: "valid_offsets 1 (Suc (Suc (Suc (Suc 0)))) 2 = [Suc 0, 2]"
  by (simp add: valid_offsets_def upt_rec numeral_2_eq_2)

theorem lookup_table_contents_witness:
  "\<exists>self'. BaseDataset_create_lookup_table
       ((ex_dataset ''train'')\<lparr>self_lookup_table := [], self_num_samples := 0\<rparr>) = Inr self'
     \<and> self_num_samples self' = 4
     \<and> map fst (self_lookup_table self') = [0, 1, 2, 3]
     \<and> map snd (self_lookup_table self') =
         [(''b0'', ticks_per_day), (''b0'', 2 * ticks_per_day),
          (''b1'', ticks_per_day), (''b1'', 2 * ticks_per_day)]"
proof -
  let ?ds = "(ex_dataset ''train'')\<lparr>self_lookup_table := [], self_num_samples := 0\<rparr>"
  have y: "self_y ?ds = Some ex_y" by (simp add: ex_dataset_def)
  have w: "0 \<le> self_warmup_length ?ds" by (simp add: ex_dataset_def)
  have d: "distinct (time_coord ex_y)" by (simp add: ex_y_fields ticks_per_day_def)
  have f: "self_warmup_length ?ds = 1" "self_rho ?ds = 2"
    "sites_id (self_t_s_dict ?ds) = [''b0'', ''b1'']"
    by (simp_all add: ex_dataset_def ex_t_s_dict_def)
  from lookup_table_contents[OF y w d]
  obtain self' where r: "BaseDataset_create_lookup_table ?ds = Inr self'"
    and n: "self_num_samples self' = length (self_lookup_table self')"
    and i: "map fst (self_lookup_table self') = map int [0..<self_num_samples self']"
    and e: "map snd (self_lookup_table self') =
          concat (map (\<lambda>b. map (\<lambda>f. (b, time_coord ex_y ! f))
             (valid_offsets (self_warmup_length ?ds) (length (time_coord ex_y)) (self_rho ?ds)))
             (sites_id (self_t_s_dict ?ds)))"
    by blast
  have e': "map snd (self_lookup_table self') =
         [(''b0'', ticks_per_day), (''b0'', 2 * ticks_per_day),
          (''b1'', ticks_per_day), (''b1'', 2 * ticks_per_day)]"
    unfolding e f by (simp add: ex_y_fields ex_valid_offsets)
  have "length (map snd (self_lookup_table self')) = 4" unfolding e' by simp
  then have n': "self_num_samples self' = 4" using n by simp
  have i': "map fst (self_lookup_table self') = [0, 1, 2, 3]"
    unfolding i n' by (simp add: upt_rec numeral_2_eq_2 numeral_3_eq_3)
  show ?thesis by (intro exI[of _ self'] conjI) (fact r n' i' e')+
qed

end
